theory Spec2Isabelle
  imports Complex_Main "HOL-Library.AList"
begin

unbundle bit_operations_syntax

section \<open>Farmhand: the calculation layer of \<open>src/utils.js\<close>, \<open>forRange.js\<close> and the purchase handler\<close>

text \<open>
  JavaScript numbers are modelled by \<^typ>\<open>real\<close> where every operand is finite (exact
  arithmetic, no rounding), and by the type \<open>number\<close> below where the code can produce
  \<open>Infinity\<close> or \<open>NaN\<close>: the literal \<open>Infinity\<close> of \<open>getCowMilkRate\<close> and
  \<open>inventorySpaceRemaining\<close>, and the division of \<open>scaleNumber\<close> when its divisor is zero.
  Constants, enums and data tables of the repository that are imported from modules outside
  the verified sources (\<open>./constants\<close>, \<open>./enums\<close>, \<open>./data/*\<close>) are parameters.
\<close>

subsection \<open>Numbers\<close>

datatype number = Num real | Infinity | NegInfinity | NaN

text \<open>\<open>a <= b\<close>, \<open>a >= b\<close> and \<open>a > b\<close> for a number and a finite number: every comparison with
  \<open>NaN\<close> is false.\<close>

fun num_le :: "number \<Rightarrow> real \<Rightarrow> bool" where
  "num_le (Num a) b = (a \<le> b)"
| "num_le Infinity b = False"
| "num_le NegInfinity b = True"
| "num_le NaN b = False"

fun num_ge :: "number \<Rightarrow> real \<Rightarrow> bool" where
  "num_ge (Num a) b = (a \<ge> b)"
| "num_ge Infinity b = True"
| "num_ge NegInfinity b = False"
| "num_ge NaN b = False"

fun num_gt :: "number \<Rightarrow> real \<Rightarrow> bool" where
  "num_gt (Num a) b = (a > b)"
| "num_gt Infinity b = True"
| "num_gt NegInfinity b = False"
| "num_gt NaN b = False"

text \<open>\<open>a * b\<close> for a finite \<open>a\<close>: \<open>0 * Infinity\<close> is \<open>NaN\<close>.\<close>

fun num_times :: "real \<Rightarrow> number \<Rightarrow> number" where
  "num_times a (Num b) = Num (a * b)"
| "num_times a Infinity = (if a > 0 then Infinity else if a < 0 then NegInfinity else NaN)"
| "num_times a NegInfinity = (if a > 0 then NegInfinity else if a < 0 then Infinity else NaN)"
| "num_times a NaN = NaN"

text \<open>\<open>const clampNumber = (num, min, max) => num <= min ? min : num >= max ? max : num\<close>\<close>

definition clampNumber :: "number \<Rightarrow> real \<Rightarrow> real \<Rightarrow> number" where
  "clampNumber num mn mx =
     (if num_le num mn then Num mn else if num_ge num mx then Num mx else num)"

text \<open>\<open>const scaleNumber = (value, min, max, baseMin, baseMax) =>
  ((value - min) * (baseMax - baseMin)) / (max - min) + baseMin\<close>.
  With \<open>max = min\<close> the divisor is \<open>+0\<close>: the quotient is \<open>Infinity\<close>, \<open>-Infinity\<close> or
  (for \<open>0 / 0\<close>) \<open>NaN\<close>, and adding the finite \<open>baseMin\<close> leaves it so.\<close>

definition scaleNumber :: "real \<Rightarrow> real \<Rightarrow> real \<Rightarrow> real \<Rightarrow> real \<Rightarrow> number" where
  "scaleNumber v mn mx baseMin baseMax =
     (let p = (v - mn) * (baseMax - baseMin); d = mx - mn in
      if d \<noteq> 0 then Num (p / d + baseMin)
      else if p > 0 then Infinity else if p < 0 then NegInfinity else NaN)"

subsection \<open>Catalog items and crops\<close>

datatype cropLifeStage = SEED | GROWING | GROWN

text \<open>A \<open>cropTimetable\<close> is the object \<open>{ [SEED]: n, [GROWING]: m }\<close>; both entries are array
  lengths (\<open>Array(cropTimetable[stage])\<close>).\<close>

record cropTimetable =
  tt_SEED :: nat
  tt_GROWING :: nat

fun timetable_at :: "cropTimetable \<Rightarrow> cropLifeStage \<Rightarrow> nat" where
  "timetable_at tt SEED = tt_SEED tt"
| "timetable_at tt GROWING = tt_GROWING tt"
| "timetable_at tt GROWN = 0"

text \<open>A catalog item; \<open>value\<close> and \<open>cropTimetable\<close> are absent on some items.\<close>

record item =
  item_id :: string
  item_value :: "real option"
  doesPriceFluctuate :: bool
  item_cropTimetable :: "cropTimetable option"

text \<open>\<open>itemsMap\<close> (from \<open>./data/maps\<close>) is an object keyed by item id: an association list
  in key order; \<open>itemsMap[id]\<close> is \<^const>\<open>map_of\<close>, \<open>Object.keys(itemsMap)\<close> is \<open>map fst\<close>.\<close>

type_synonym itemsMap = "(string \<times> item) list"

record crop =
  crop_itemId :: string
  crop_daysOld :: real
  crop_daysWatered :: real
  isFertilized :: bool
  wasWateredToday :: bool

text \<open>\<open>getLifeStageRange\<close>: \<open>[SEED, GROWING].reduce((acc, stage) =>
  acc.concat(Array(cropTimetable[stage]).fill(stage)), [])\<close>. The \<open>memoize\<close> wrapper around it
  is modelled in the subsection on memoization; here the wrapped function itself.\<close>

definition getLifeStageRange :: "cropTimetable \<Rightarrow> cropLifeStage list" where
  "getLifeStageRange tt =
     foldl (\<lambda>acc stage. acc @ replicate (timetable_at tt stage) stage) [] [SEED, GROWING]"

text \<open>Array indexing by a number: \<open>undefined\<close> (here \<open>None\<close>) for a negative index and for an
  index at or beyond the length.\<close>

definition js_index :: "'a list \<Rightarrow> int \<Rightarrow> 'a option" where
  "js_index xs i = (if 0 \<le> i \<and> i < int (length xs) then Some (xs ! nat i) else None)"

datatype type_error = TypeError

text \<open>\<open>getCropLifeStage = ({ itemId, daysWatered }) =>
  getLifeStageRange(itemsMap[itemId].cropTimetable)[Math.floor(daysWatered)] || GROWN\<close>.
  Reading \<open>.cropTimetable\<close> of a missing item, or an entry of a missing timetable, raises a
  \<open>TypeError\<close>. Every entry of the range is a non-empty string, so \<open>||\<close> takes its right
  operand exactly when the indexing gives \<open>undefined\<close>.\<close>

definition getCropLifeStage :: "itemsMap \<Rightarrow> crop \<Rightarrow> type_error + cropLifeStage" where
  "getCropLifeStage itemsMap c =
     (case map_of itemsMap (crop_itemId c) of
        None \<Rightarrow> Inl TypeError
      | Some it \<Rightarrow>
          (case item_cropTimetable it of
             None \<Rightarrow> Inl TypeError
           | Some tt \<Rightarrow>
               (case js_index (getLifeStageRange tt) \<lfloor>crop_daysWatered c\<rfloor> of
                  Some stage \<Rightarrow> Inr stage
                | None \<Rightarrow> Inr GROWN)))"

subsection \<open>Plain objects and double arithmetic\<close>

text \<open>The property names that every plain object \<open>{}\<close> inherits from \<open>Object.prototype\<close>
  (ECMAScript, with its annex B). Reading such a name from a plain object that has no own
  property of that name gives the inherited member, a function (for \<open>__proto__\<close> the
  prototype object itself): a truthy value that is not \<open>undefined\<close>.\<close>

definition Object_prototype_keys :: "string list" where
  "Object_prototype_keys =
     [''constructor'', ''__defineGetter__'', ''__defineSetter__'', ''hasOwnProperty'',
      ''__lookupGetter__'', ''__lookupSetter__'', ''isPrototypeOf'', ''propertyIsEnumerable'',
      ''toString'', ''valueOf'', ''__proto__'', ''toLocaleString'']"

text \<open>Whether \<open>obj[key]\<close> is truthy, for a plain object whose own values are objects: the key
  is an own property or an inherited one.\<close>

definition truthyProperty :: "(string \<rightharpoonup> 'a) \<Rightarrow> string \<Rightarrow> bool" where
  "truthyProperty obj key = (obj key \<noteq> None \<or> key \<in> set Object_prototype_keys)"

text \<open>\<open>obj[key] = v\<close> on a plain object, for a number \<open>v\<close>: an own property is written,
  except that assigning a number to \<open>__proto__\<close> is ignored and writes none.\<close>

definition assignProperty :: "(string \<rightharpoonup> real) \<Rightarrow> string \<Rightarrow> real \<Rightarrow> (string \<rightharpoonup> real)" where
  "assignProperty obj key v = (if key = ''__proto__'' then obj else obj(key \<mapsto> v))"

text \<open>Rounding to the nearest integer, a tie going to the even one: the rounding of binary
  floating point.\<close>

definition roundTiesToEven :: "real \<Rightarrow> int" where
  "roundTiesToEven x =
     (let f = \<lfloor>x\<rfloor>; d = x - real_of_int f in
      if d < 1 / 2 then f else if d > 1 / 2 then f + 1 else if even f then f else f + 1)"

text \<open>The double \<open>r + 0.5\<close> for a double \<open>r\<close> with \<open>0 \<le> r < 1\<close>: the exact sum lies in
  \<open>[0.5, 1.5)\<close> and is rounded to the nearest double, ties to even. Doubles are
  \<open>1 / 2 ^ 53\<close> apart from 0.5 to 1 and \<open>1 / 2 ^ 52\<close> apart from 1 to 2.\<close>

definition double_plus_half :: "real \<Rightarrow> real" where
  "double_plus_half r =
     (let s = r + 1 / 2 in
      if s < 1 then real_of_int (roundTiesToEven (s * 2 ^ 53)) / 2 ^ 53
      else real_of_int (roundTiesToEven (s * 2 ^ 52)) / 2 ^ 52)"

subsection \<open>Value adjustments\<close>

record priceEvent =
  pe_itemId :: string
  daysRemaining :: real

text \<open>\<open>Math.random\<close> is an injected entropy source: the stream of its successive results
  and the number of results already drawn.\<close>

type_synonym random = "nat \<Rightarrow> real"

text \<open>One step of the reducer of \<open>generateValueAdjustments\<close>. \<open>priceCrashes\<close> and
  \<open>priceSurges\<close> are plain objects whose own values are price events, \<open>acc\<close> is a plain
  object, and \<open>Math.random() + 0.5\<close> is an addition of doubles. The keys come from
  \<open>Object.keys(itemsMap)\<close>, so \<open>itemsMap[key]\<close> is always an own property, an item.\<close>

definition valueAdjustment_step ::
  "itemsMap \<Rightarrow> (string \<rightharpoonup> priceEvent) \<Rightarrow> (string \<rightharpoonup> priceEvent) \<Rightarrow> random \<Rightarrow>
   (string \<rightharpoonup> real) \<times> nat \<Rightarrow> string \<Rightarrow> (string \<rightharpoonup> real) \<times> nat" where
  "valueAdjustment_step itemsMap priceCrashes priceSurges rnd st key =
     (case st of (acc, n) \<Rightarrow>
        (case map_of itemsMap key of
           None \<Rightarrow> (acc, n)
         | Some it \<Rightarrow>
             if doesPriceFluctuate it then
               if truthyProperty priceCrashes key then (assignProperty acc key 0.5, n)
               else if truthyProperty priceSurges key then (assignProperty acc key 1.5, n)
               else (assignProperty acc key (double_plus_half (rnd n)), Suc n)
             else (acc, n)))"

text \<open>\<open>generateValueAdjustments = (priceCrashes, priceSurges) =>
  Object.keys(itemsMap).reduce((acc, key) => { ... }, {})\<close>, returning the object and the
  number of random results drawn.\<close>

definition generateValueAdjustments ::
  "itemsMap \<Rightarrow> random \<Rightarrow> (string \<rightharpoonup> priceEvent) \<Rightarrow> (string \<rightharpoonup> priceEvent) \<Rightarrow>
   (string \<rightharpoonup> real) \<times> nat" where
  "generateValueAdjustments itemsMap rnd priceCrashes priceSurges =
     foldl (valueAdjustment_step itemsMap priceCrashes priceSurges rnd) (Map.empty, 0)
       (map fst itemsMap)"

subsection \<open>Cows\<close>

datatype gender = FEMALE | MALE

text \<open>The numeric constants of \<open>./constants\<close> that the code below reads.\<close>

record constants =
  COW_MAXIMUM_AGE_VALUE_DROPOFF :: real
  COW_MAXIMUM_VALUE_MULTIPLIER :: real
  COW_MILK_RATE_FASTEST :: real
  COW_MILK_RATE_SLOWEST :: real
  COW_MINIMUM_VALUE_MULTIPLIER :: real
  COW_STARTING_WEIGHT_BASE :: real
  COW_STARTING_WEIGHT_VARIANCE :: real
  COW_WEIGHT_MULTIPLIER_MAXIMUM :: real
  COW_WEIGHT_MULTIPLIER_MINIMUM :: real
  MALE_COW_WEIGHT_MULTIPLIER :: real

text \<open>The tables \<open>Object.values(genders)\<close>, \<open>Object.values(cowColors)\<close> and \<open>fruitNames\<close>, and
  what \<open>createUniqueId\<close> reads from outside: \<open>Date.now()\<close> and \<open>btoa\<close> of a number (its
  conversion to a string, then base 64).\<close>

record tables =
  genders_values :: "gender list"
  cowColors_values :: "string list"
  fruitNames :: "string list"
  Date_now :: real
  btoa :: "real \<Rightarrow> string"

text \<open>A cow. \<open>colorsInBloodline\<close> is an object \<open>{ [color]: true, ... }\<close>. The fields that
  \<open>generateCow\<close> fills from \<open>chooseRandom\<close> are \<open>undefined\<close> (here \<open>None\<close>) when the table
  is empty.\<close>

record cow =
  baseWeight :: real
  color :: "string option"
  colorsInBloodline :: "string \<rightharpoonup> bool"
  daysOld :: real
  daysSinceMilking :: real
  gender :: "gender option"
  happiness :: real
  happinessBoostsToday :: real
  cow_id :: string
  isUsingHuggingMachine :: bool
  name :: "string option"
  weightMultiplier :: real

text \<open>The \<open>options\<close> object of \<open>generateCow\<close>: any field of a cow, each key present
  (\<open>Some\<close>) or absent (\<open>None\<close>).\<close>

record cowOptions =
  o_baseWeight :: "real option"
  o_color :: "string option option"
  o_colorsInBloodline :: "(string \<rightharpoonup> bool) option"
  o_daysOld :: "real option"
  o_daysSinceMilking :: "real option"
  o_gender :: "gender option option"
  o_happiness :: "real option"
  o_happinessBoostsToday :: "real option"
  o_id :: "string option"
  o_isUsingHuggingMachine :: "bool option"
  o_name :: "string option option"
  o_weightMultiplier :: "real option"

text \<open>\<open>const chooseRandom = list => list[Math.round(Math.random() * (list.length - 1))]\<close>,
  given the result \<open>r\<close> of \<open>Math.random()\<close>. \<open>Math.round\<close> rounds a half upwards, as
  \<^const>\<open>round\<close> does.\<close>

definition chooseRandom :: "'a list \<Rightarrow> real \<Rightarrow> 'a option" where
  "chooseRandom list r = js_index list (round (r * (real (length list) - 1)))"

text \<open>\<open>const createUniqueId = () => btoa(Math.random() + Date.now())\<close>\<close>

definition createUniqueId :: "tables \<Rightarrow> real \<Rightarrow> string" where
  "createUniqueId t r = btoa t (r + Date_now t)"

text \<open>A property key computed from a color: \<open>undefined\<close> becomes the key \<open>"undefined"\<close>.\<close>

definition propertyKey :: "string option \<Rightarrow> string" where
  "propertyKey c = (case c of Some s \<Rightarrow> s | None \<Rightarrow> ''undefined'')"

text \<open>\<open>generateCow(options)\<close>, drawing from the random stream \<open>rnd\<close> at position \<open>n\<close> and
  returning the cow and the next position. \<open>options.gender || chooseRandom(...)\<close> draws only
  when the option is absent or falsy; a gender is a non-empty string, a color is falsy when it
  is the empty string. The object literal evaluates \<open>id\<close> before \<open>name\<close>, and the final
  \<open>...options\<close> overwrites every field whose key is present.\<close>

definition generateCow :: "constants \<Rightarrow> tables \<Rightarrow> random \<Rightarrow> nat \<Rightarrow> cowOptions \<Rightarrow> cow \<times> nat" where
  "generateCow k t rnd n0 options =
     (let (gender0, n1) =
            (case o_gender options of
               Some (Some g) \<Rightarrow> (Some g, n0)
             | _ \<Rightarrow> (chooseRandom (genders_values t) (rnd n0), Suc n0));
          baseWeight0 = real_of_int (round
            (COW_STARTING_WEIGHT_BASE k *
               (if gender0 = Some MALE then MALE_COW_WEIGHT_MULTIPLIER k else 1) -
             COW_STARTING_WEIGHT_VARIANCE k +
             rnd n1 * (COW_STARTING_WEIGHT_VARIANCE k * 2)));
          n2 = Suc n1;
          (color0, n3) =
            (case o_color options of
               Some (Some c) \<Rightarrow>
                 if c \<noteq> [] then (Some c, n2)
                 else (chooseRandom (cowColors_values t) (rnd n2), Suc n2)
             | _ \<Rightarrow> (chooseRandom (cowColors_values t) (rnd n2), Suc n2));
          id0 = createUniqueId t (rnd n3);
          n4 = Suc n3;
          name0 = chooseRandom (fruitNames t) (rnd n4);
          n5 = Suc n4
      in
      (\<lparr> baseWeight = (case o_baseWeight options of Some v \<Rightarrow> v | None \<Rightarrow> baseWeight0),
         color = (case o_color options of Some v \<Rightarrow> v | None \<Rightarrow> color0),
         colorsInBloodline =
           (case o_colorsInBloodline options of
              Some v \<Rightarrow> v | None \<Rightarrow> [propertyKey color0 \<mapsto> True]),
         daysOld = (case o_daysOld options of Some v \<Rightarrow> v | None \<Rightarrow> 1),
         daysSinceMilking = (case o_daysSinceMilking options of Some v \<Rightarrow> v | None \<Rightarrow> 0),
         gender = (case o_gender options of Some v \<Rightarrow> v | None \<Rightarrow> gender0),
         happiness = (case o_happiness options of Some v \<Rightarrow> v | None \<Rightarrow> 0),
         happinessBoostsToday =
           (case o_happinessBoostsToday options of Some v \<Rightarrow> v | None \<Rightarrow> 0),
         cow_id = (case o_id options of Some v \<Rightarrow> v | None \<Rightarrow> id0),
         isUsingHuggingMachine =
           (case o_isUsingHuggingMachine options of Some v \<Rightarrow> v | None \<Rightarrow> False),
         name = (case o_name options of Some v \<Rightarrow> v | None \<Rightarrow> name0),
         weightMultiplier = (case o_weightMultiplier options of Some v \<Rightarrow> v | None \<Rightarrow> 1) \<rparr>,
       n5))"

text \<open>The \<open>Error\<close> thrown by \<open>generateOffspringCow\<close>; its message is
  \<open>JSON.stringify(cow1)\<close>, \<open>JSON.stringify(cow2)\<close> and a fixed text, so it carries both cows.\<close>

datatype offspring_error = SameGenderError cow cow

definition noOptions :: cowOptions where
  "noOptions = \<lparr> o_baseWeight = None, o_color = None, o_colorsInBloodline = None,
     o_daysOld = None, o_daysSinceMilking = None, o_gender = None, o_happiness = None,
     o_happinessBoostsToday = None, o_id = None, o_isUsingHuggingMachine = None,
     o_name = None, o_weightMultiplier = None \<rparr>"

text \<open>\<open>generateOffspringCow(cow1, cow2)\<close>. In the object literal of \<open>colorsInBloodline\<close> the
  two computed keys come first and the spreads of the parents' objects after them, so a
  parent's entry overwrites the \<open>true\<close> of a computed key, and the mother's entries overwrite
  the father's.\<close>

definition generateOffspringCow ::
  "constants \<Rightarrow> tables \<Rightarrow> random \<Rightarrow> nat \<Rightarrow> cow \<Rightarrow> cow \<Rightarrow> offspring_error + cow \<times> nat" where
  "generateOffspringCow k t rnd n cow1 cow2 =
     (if gender cow1 = gender cow2 then Inl (SameGenderError cow1 cow2)
      else
        let maleCow = (if gender cow1 = Some MALE then cow1 else cow2);
            femaleCow = (if gender cow1 = Some MALE then cow2 else cow1)
        in Inr (generateCow k t rnd n
             (noOptions\<lparr>
                o_color := Some (color maleCow),
                o_colorsInBloodline := Some
                  ([propertyKey (color maleCow) \<mapsto> True] ++
                   [propertyKey (color femaleCow) \<mapsto> True] ++
                   colorsInBloodline maleCow ++ colorsInBloodline femaleCow),
                o_baseWeight := Some ((baseWeight maleCow + baseWeight femaleCow) / 2) \<rparr>)))"

text \<open>\<open>getCowMilkRate = cow => cow.gender === genders.FEMALE ? scaleNumber(...) : Infinity\<close>\<close>

definition getCowMilkRate :: "constants \<Rightarrow> cow \<Rightarrow> number" where
  "getCowMilkRate k c =
     (if gender c = Some FEMALE
      then scaleNumber (weightMultiplier c)
             (COW_WEIGHT_MULTIPLIER_MINIMUM k) (COW_WEIGHT_MULTIPLIER_MAXIMUM k)
             (COW_MILK_RATE_SLOWEST k) (COW_MILK_RATE_FASTEST k)
      else Infinity)"

text \<open>\<open>getCowWeight = ({ baseWeight, weightMultiplier }) => Math.round(baseWeight * weightMultiplier)\<close>\<close>

definition getCowWeight :: "cow \<Rightarrow> real" where
  "getCowWeight c = real_of_int (round (baseWeight c * weightMultiplier c))"

text \<open>\<open>getCowValue = cow => getCowWeight(cow) * clampNumber(scaleNumber(cow.daysOld, 1,
  COW_MAXIMUM_AGE_VALUE_DROPOFF, COW_MAXIMUM_VALUE_MULTIPLIER, COW_MINIMUM_VALUE_MULTIPLIER),
  COW_MINIMUM_VALUE_MULTIPLIER, COW_MAXIMUM_VALUE_MULTIPLIER)\<close>. The second factor is named,
  the claims speak of it.\<close>

definition cowValueMultiplier :: "constants \<Rightarrow> cow \<Rightarrow> number" where
  "cowValueMultiplier k c =
     clampNumber
       (scaleNumber (daysOld c) 1 (COW_MAXIMUM_AGE_VALUE_DROPOFF k)
          (COW_MAXIMUM_VALUE_MULTIPLIER k) (COW_MINIMUM_VALUE_MULTIPLIER k))
       (COW_MINIMUM_VALUE_MULTIPLIER k) (COW_MAXIMUM_VALUE_MULTIPLIER k)"

definition getCowValue :: "constants \<Rightarrow> cow \<Rightarrow> number" where
  "getCowValue k c = num_times (getCowWeight c) (cowValueMultiplier k c)"

subsection \<open>State, inventory and field\<close>

record inventoryEntry =
  entry_id :: string
  quantity :: real

text \<open>The game state, as far as the functions below read it. A cell of \<open>field\<close> is a crop
  or \<open>null\<close>.\<close>

record state =
  field :: "crop option list list"
  inventory :: "inventoryEntry list"
  inventoryLimit :: real
  money :: real

text \<open>\<open>inventorySpaceConsumed = memoize(inventory =>
  inventory.reduce((sum, { quantity }) => sum + quantity, 0))\<close>, the wrapped function.\<close>

definition inventorySpaceConsumed :: "inventoryEntry list \<Rightarrow> real" where
  "inventorySpaceConsumed inventory0 = foldl (\<lambda>sum e. sum + quantity e) 0 inventory0"

text \<open>\<open>inventorySpaceRemaining = ({ inventory, inventoryLimit }) =>
  inventoryLimit === -1 ? Infinity : inventoryLimit - inventorySpaceConsumed(inventory)\<close>\<close>

definition inventorySpaceRemaining :: "'a state_scheme \<Rightarrow> number" where
  "inventorySpaceRemaining s =
     (if inventoryLimit s = - 1 then Infinity
      else Num (inventoryLimit s - inventorySpaceConsumed (inventory s)))"

text \<open>\<open>doesInventorySpaceRemain = ({ inventory, inventoryLimit }) =>
  inventorySpaceRemaining({ inventory, inventoryLimit }) > 0\<close>\<close>

definition doesInventorySpaceRemain :: "'a state_scheme \<Rightarrow> bool" where
  "doesInventorySpaceRemain s = num_gt (inventorySpaceRemaining s) 0"

subsection \<open>\<open>forRange\<close>\<close>

text \<open>The inner loop \<open>for (let x = startX; x <= endX; x++) state = fieldFn(state, x, y, ...args)\<close>,
  entered with the current \<open>x\<close>.\<close>

function forRange_x ::
  "('s \<Rightarrow> int \<Rightarrow> int \<Rightarrow> 'a \<Rightarrow> 's) \<Rightarrow> 'a \<Rightarrow> int \<Rightarrow> int \<Rightarrow> int \<Rightarrow> 's \<Rightarrow> 's" where
  "forRange_x fieldFn args endX y x st =
     (if x \<le> endX then forRange_x fieldFn args endX y (x + 1) (fieldFn st x y args) else st)"
  by pat_completeness auto
termination
  by (relation "measure (\<lambda>(fieldFn, args, endX, y, x, st). nat (endX + 1 - x))") auto

declare forRange_x.simps [simp del]

text \<open>The outer loop \<open>for (let y = startY; y <= endY; y++) { ... }\<close>, entered with the
  current \<open>y\<close>.\<close>

function forRange_y ::
  "('s \<Rightarrow> int \<Rightarrow> int \<Rightarrow> 'a \<Rightarrow> 's) \<Rightarrow> 'a \<Rightarrow> int \<Rightarrow> int \<Rightarrow> int \<Rightarrow> int \<Rightarrow> 's \<Rightarrow> 's" where
  "forRange_y fieldFn args startX endX endY y st =
     (if y \<le> endY
      then forRange_y fieldFn args startX endX endY (y + 1)
             (forRange_x fieldFn args endX y startX st)
      else st)"
  by pat_completeness auto
termination
  by (relation "measure (\<lambda>(fieldFn, args, startX, endX, endY, y, st). nat (endY + 1 - y))") auto

declare forRange_y.simps [simp del]

text \<open>\<open>forRange(state, fieldFn, rangeRadius, plotX, plotY, ...args)\<close>. The bounds are read
  from the state passed in, before the loops; \<open>state.field[0].length\<close> raises a \<open>TypeError\<close>
  when the field has no row.\<close>

definition forRange ::
  "'m state_scheme \<Rightarrow> ('m state_scheme \<Rightarrow> int \<Rightarrow> int \<Rightarrow> 'a \<Rightarrow> 'm state_scheme) \<Rightarrow>
   int \<Rightarrow> int \<Rightarrow> int \<Rightarrow> 'a \<Rightarrow> type_error + 'm state_scheme" where
  "forRange st fieldFn rangeRadius plotX plotY args =
     (case field st of
        [] \<Rightarrow> Inl TypeError
      | row0 # _ \<Rightarrow>
          let startX = max (plotX - rangeRadius) 0;
              endX = min (plotX + rangeRadius) (int (length row0) - 1);
              startY = max (plotY - rangeRadius) 0;
              endY = min (plotY + rangeRadius) (int (length (field st)) - 1)
          in Inr (forRange_y fieldFn args startX endX endY startY st))"

text \<open>The cells that the specification names, in its words: the coordinates of the
  \<open>(2 * radius + 1)\<close> by \<open>(2 * radius + 1)\<close> square centered at \<open>(x, y)\<close> that lie within
  a field of the given width and height, in row-major order (rows by ascending \<open>y\<close>, within a
  row by ascending \<open>x\<close>). It is compared with \<^const>\<open>forRange\<close> below.\<close>

definition squareCells :: "nat \<Rightarrow> nat \<Rightarrow> int \<Rightarrow> int \<Rightarrow> int \<Rightarrow> (int \<times> int) list" where
  "squareCells width height radius x y =
     concat (map (\<lambda>cy. map (\<lambda>cx. (cx, cy))
                        (filter (\<lambda>cx. \<bar>cx - x\<bar> \<le> radius) [0..int width - 1]))
                 (filter (\<lambda>cy. \<bar>cy - y\<bar> \<le> radius) [0..int height - 1]))"

subsection \<open>\<open>handleItemPurchase\<close>\<close>

text \<open>\<open>Array.prototype.findIndex\<close>: the first index whose element satisfies the predicate,
  \<open>-1\<close> when there is none.\<close>

fun findIndex :: "('a \<Rightarrow> bool) \<Rightarrow> 'a list \<Rightarrow> int" where
  "findIndex P [] = - 1"
| "findIndex P (x # xs) =
     (if P x then 0 else (let i = findIndex P xs in if i = - 1 then - 1 else i + 1))"

text \<open>The \<open>value = 0\<close> of the destructuring \<open>const { id, value = 0 } = item\<close>.\<close>

definition valueOrZero :: "item \<Rightarrow> real" where
  "valueOrZero it = (case item_value it of Some v \<Rightarrow> v | None \<Rightarrow> 0)"

text \<open>\<open>handleItemPurchase(item)\<close> of the event handlers, as a function from the component's
  state to its next state: \<open>this.setState({ inventory, money })\<close> replaces the two fields, and
  the early \<open>return\<close> leaves the state as it is. \<open>const { id, value = 0 } = item\<close> defaults an
  absent value to 0; \<open>~currentItemSlot\<close> is falsy exactly for \<open>-1\<close>.\<close>

definition handleItemPurchase :: "'m state_scheme \<Rightarrow> item \<Rightarrow> 'm state_scheme" where
  "handleItemPurchase st it =
     (let itemId = item_id it;
          value = valueOrZero it;
          inventory0 = inventory st;
          money0 = money st
      in
      if value > money0 then st
      else
        let currentItemSlot = findIndex (\<lambda>e. itemId = entry_id e) inventory0;
            inventory1 =
              (if NOT currentItemSlot \<noteq> 0
               then inventory0[nat currentItemSlot :=
                      (inventory0 ! nat currentItemSlot)
                        \<lparr>quantity := quantity (inventory0 ! nat currentItemSlot) + 1\<rparr>]
               else inventory0 @ [\<lparr>entry_id = itemId, quantity = 1\<rparr>])
        in st\<lparr>inventory := inventory1, money := money0 - value\<rparr>)"

text \<open>The quantity held of an item: that of its entry, 0 when the inventory has none.\<close>

definition quantityOf :: "string \<Rightarrow> inventoryEntry list \<Rightarrow> real" where
  "quantityOf itemId inventory0 =
     (case find (\<lambda>e. itemId = entry_id e) inventory0 of Some e \<Rightarrow> quantity e | None \<Rightarrow> 0)"

subsection \<open>Memoization\<close>

text \<open>\<open>class MemoizeCache\<close>: the plain object \<open>cache\<close>, its own properties as an
  association list in insertion order; a key is a property name, a string. A stored value
  may be \<open>undefined\<close> (\<open>None\<close>).\<close>

type_synonym 'v memoizeCache = "(string \<times> 'v option) list"

text \<open>What reading \<open>this.cache[key]\<close> gives: \<open>undefined\<close>, a value that was stored, or the
  member of \<open>Object.prototype\<close> of that name.\<close>

datatype 'v cached = Undefined | Value 'v | Inherited string

definition toCached :: "'v option \<Rightarrow> 'v cached" where
  "toCached v = (case v of None \<Rightarrow> Undefined | Some x \<Rightarrow> Value x)"

text \<open>\<open>has(key) { return key in this.cache }\<close>: own and inherited properties.\<close>

definition MemoizeCache_has :: "'v memoizeCache \<Rightarrow> string \<Rightarrow> bool" where
  "MemoizeCache_has cache key =
     (key \<in> set (map fst cache) \<or> key \<in> set Object_prototype_keys)"

text \<open>\<open>get(key) { return this.cache[key] }\<close>: an own property first, then an inherited
  one.\<close>

definition MemoizeCache_get :: "'v memoizeCache \<Rightarrow> string \<Rightarrow> 'v cached" where
  "MemoizeCache_get cache key =
     (case map_of cache key of
        Some v \<Rightarrow> toCached v
      | None \<Rightarrow> if key \<in> set Object_prototype_keys then Inherited key else Undefined)"

text \<open>\<open>set(key, value) { if (Object.keys(this.cache).length > MEMOIZE_CACHE_CLEAR_THRESHOLD)
  { this.cache = {} }; this.cache[key] = value }\<close>. The keys of the list are distinct in
  every cache that calls produce (shown below), so their number is its length. Assigning to
  \<open>__proto__\<close> writes no own property (it would replace the prototype when the value is an
  object); the memoized function never does so, since it calls \<open>set\<close> only after \<open>get\<close>
  gave \<open>undefined\<close>.\<close>

definition MemoizeCache_set ::
  "nat \<Rightarrow> 'v memoizeCache \<Rightarrow> string \<Rightarrow> 'v option \<Rightarrow> 'v memoizeCache" where
  "MemoizeCache_set MEMOIZE_CACHE_CLEAR_THRESHOLD cache key v =
     (let cache1 =
            (if length (map fst cache) > MEMOIZE_CACHE_CLEAR_THRESHOLD then [] else cache)
      in if key = ''__proto__'' then cache1 else AList.update key v cache1)"

text \<open>\<open>memoize = (fn, config) => fastMemoize(fn, { cache: { create: () => new MemoizeCache() },
  ...config })\<close>. \<open>fast-memoize\<close> is a library outside the repository; one call of the function
  it returns computes the key of the arguments with the serializer (that of \<open>config\<close>, or
  \<open>JSON.stringify\<close>; for a function of one argument that is a primitive value, the argument
  itself), reads the cache with \<open>get\<close>, and when that is \<open>undefined\<close> calls \<open>fn\<close> and
  stores the result with \<open>set\<close>; otherwise it returns what \<open>get\<close> gave. The parameter
  \<open>serializer\<close> is this key computation. A call takes the cache and returns the result and
  the cache after it.\<close>

definition memoized ::
  "nat \<Rightarrow> ('a \<Rightarrow> string) \<Rightarrow> ('a \<Rightarrow> 'v option) \<Rightarrow> 'v memoizeCache \<Rightarrow> 'a \<Rightarrow>
   'v cached \<times> 'v memoizeCache" where
  "memoized threshold serializer fn cache args =
     (let cacheKey = serializer args in
      case MemoizeCache_get cache cacheKey of
        Undefined \<Rightarrow>
          (let computedValue = fn args in
           (toCached computedValue,
            MemoizeCache_set threshold cache cacheKey computedValue))
      | computedValue \<Rightarrow> (computedValue, cache))"

text \<open>The cache of a memoized function after a sequence of calls, starting from the empty
  cache that \<open>create\<close> makes.\<close>

definition cacheAfter ::
  "nat \<Rightarrow> ('a \<Rightarrow> string) \<Rightarrow> ('a \<Rightarrow> 'v option) \<Rightarrow> 'a list \<Rightarrow> 'v memoizeCache" where
  "cacheAfter threshold serializer fn calls =
     foldl (\<lambda>cache args. snd (memoized threshold serializer fn cache args)) [] calls"

text \<open>The arguments of \<open>findInField(field, condition)\<close>. A function value has a source text,
  which is all that \<open>toString\<close> shows of it, and a behaviour, which also depends on the
  variables it closes over.\<close>

datatype arg =
  FieldArg "crop option list list"
| FunctionArg string "crop option \<Rightarrow> bool"
| StringArg string

text \<open>\<open>memoizationSerializer = args => JSON.stringify(
  [...args].map(arg => (typeof arg === 'function' ? arg.toString() : arg)))\<close>, with
  \<open>JSON.stringify\<close> a parameter.\<close>

definition memoizationSerializer :: "(arg list \<Rightarrow> string) \<Rightarrow> arg list \<Rightarrow> string" where
  "memoizationSerializer stringify args =
     stringify (map (\<lambda>arg. case arg of FunctionArg src _ \<Rightarrow> StringArg src | _ \<Rightarrow> arg) args)"

text \<open>\<open>findInField = memoize((field, condition) =>
  field.find(row => row.find(condition)) || null, { serializer: memoizationSerializer })\<close>:
  the wrapped function on its argument list. \<open>row.find(condition)\<close> is the found cell, which
  is truthy when it is a crop; the result is the first row with such a cell, or \<open>null\<close>
  (\<open>Some None\<close>; a result is never \<open>undefined\<close>). Calling a condition that is not a function
  raises, which is outside this model: such argument lists are given \<open>null\<close>.\<close>

definition findInField_fn :: "arg list \<Rightarrow> crop option list option option" where
  "findInField_fn args =
     (case args of
        [FieldArg fld, FunctionArg src condition] \<Rightarrow>
          Some (find (\<lambda>row. case find condition row of Some (Some c) \<Rightarrow> True | _ \<Rightarrow> False) fld)
      | _ \<Rightarrow> Some None)"

subsection \<open>Concrete inputs\<close>

text \<open>A small catalog, crops, cows and states on which the theorems below are evaluated.\<close>

definition carrot :: item where
  "carrot = \<lparr>item_id = ''carrot'', item_value = Some 25, doesPriceFluctuate = True,
     item_cropTimetable = Some \<lparr>tt_SEED = 3, tt_GROWING = 4\<rparr>\<rparr>"

definition scarecrow :: item where
  "scarecrow = \<lparr>item_id = ''scarecrow'', item_value = Some 160, doesPriceFluctuate = False,
     item_cropTimetable = None\<rparr>"

definition pumpkin :: item where
  "pumpkin = \<lparr>item_id = ''pumpkin'', item_value = Some 40, doesPriceFluctuate = True,
     item_cropTimetable = Some \<lparr>tt_SEED = 2, tt_GROWING = 5\<rparr>\<rparr>"

definition spinach :: item where
  "spinach = \<lparr>item_id = ''spinach'', item_value = Some 12, doesPriceFluctuate = True,
     item_cropTimetable = Some \<lparr>tt_SEED = 1, tt_GROWING = 2\<rparr>\<rparr>"

definition catalog :: itemsMap where
  "catalog = [(''carrot'', carrot), (''scarecrow'', scarecrow), (''pumpkin'', pumpkin),
     (''spinach'', spinach)]"

definition carrotCrop :: "real \<Rightarrow> real \<Rightarrow> crop" where
  "carrotCrop old watered = \<lparr>crop_itemId = ''carrot'', crop_daysOld = old,
     crop_daysWatered = watered, isFertilized = False, wasWateredToday = False\<rparr>"

definition samples :: random where
  "samples n = 1 / (real n + 2)"

definition dyadicSamples :: random where
  "dyadicSamples n = 1 / 2 ^ (n + 1)"

text \<open>The largest double below 1.\<close>

definition almostOne :: random where
  "almostOne n = 1 - 1 / 2 ^ 53"

text \<open>A catalog with an item whose id is also the name of a member of
  \<open>Object.prototype\<close>, and one whose own key is \<open>__proto__\<close>.\<close>

definition inheritedCatalog :: itemsMap where
  "inheritedCatalog =
     [(''constructor'', \<lparr>item_id = ''constructor'', item_value = Some 10,
         doesPriceFluctuate = True, item_cropTimetable = None\<rparr>),
      (''__proto__'', \<lparr>item_id = ''__proto__'', item_value = Some 10,
         doesPriceFluctuate = True, item_cropTimetable = None\<rparr>)]"

definition carrotEvent :: priceEvent where
  "carrotEvent = \<lparr>pe_itemId = ''carrot'', daysRemaining = 4\<rparr>"

definition pumpkinEvent :: priceEvent where
  "pumpkinEvent = \<lparr>pe_itemId = ''pumpkin'', daysRemaining = 4\<rparr>"

definition crashes1 :: "string \<rightharpoonup> priceEvent" where
  "crashes1 = [''carrot'' \<mapsto> carrotEvent]"

definition surges1 :: "string \<rightharpoonup> priceEvent" where
  "surges1 = [''carrot'' \<mapsto> carrotEvent, ''pumpkin'' \<mapsto> pumpkinEvent]"

definition surges2 :: "string \<rightharpoonup> priceEvent" where
  "surges2 = [''pumpkin'' \<mapsto> pumpkinEvent]"

definition exampleConstants :: constants where
  "exampleConstants = \<lparr>
     COW_MAXIMUM_AGE_VALUE_DROPOFF = 1825,
     COW_MAXIMUM_VALUE_MULTIPLIER = 5,
     COW_MILK_RATE_FASTEST = 1,
     COW_MILK_RATE_SLOWEST = 3,
     COW_MINIMUM_VALUE_MULTIPLIER = 1 / 2,
     COW_STARTING_WEIGHT_BASE = 1800,
     COW_STARTING_WEIGHT_VARIANCE = 200,
     COW_WEIGHT_MULTIPLIER_MAXIMUM = 3 / 2,
     COW_WEIGHT_MULTIPLIER_MINIMUM = 1 / 2,
     MALE_COW_WEIGHT_MULTIPLIER = 11 / 10 \<rparr>"

definition exampleTables :: tables where
  "exampleTables = \<lparr>
     genders_values = [FEMALE, MALE],
     cowColors_values = [''BLUE'', ''BROWN'', ''WHITE''],
     fruitNames = [''Apple'', ''Banana'', ''Cherry''],
     Date_now = 1600000000000,
     btoa = (\<lambda>x. if x < 1600000000001 / 2 then ''MA=='' else ''MQ=='') \<rparr>"

definition bull :: cow where
  "bull = \<lparr> baseWeight = 2000, color = Some ''BROWN'',
     colorsInBloodline = [''BROWN'' \<mapsto> True, ''BLUE'' \<mapsto> True],
     daysOld = 1, daysSinceMilking = 0, gender = Some MALE, happiness = 0,
     happinessBoostsToday = 0, cow_id = ''bull'', isUsingHuggingMachine = False,
     name = Some ''Apple'', weightMultiplier = 1 \<rparr>"

definition dairy :: cow where
  "dairy = \<lparr> baseWeight = 1800, color = Some ''WHITE'',
     colorsInBloodline = Map.empty,
     daysOld = 913, daysSinceMilking = 0, gender = Some FEMALE, happiness = 0,
     happinessBoostsToday = 0, cow_id = ''dairy'', isUsingHuggingMachine = False,
     name = Some ''Cherry'', weightMultiplier = 1 \<rparr>"

definition exampleState :: state where
  "exampleState = \<lparr> field = replicate 5 (replicate 5 None),
     inventory = [\<lparr>entry_id = ''carrot'', quantity = 3\<rparr>,
                  \<lparr>entry_id = ''pumpkin'', quantity = 4\<rparr>],
     inventoryLimit = 10, money = 100 \<rparr>"

text \<open>A state on a 5 by 5 field that also carries the list of the cells visited so far, and a
  cell function that appends the cell it is called on.\<close>

definition traceState :: "(int \<times> int) list state_scheme" where
  "traceState = \<lparr> field = replicate 5 (replicate 5 None), inventory = [],
     inventoryLimit = 10, money = 100, \<dots> = [] \<rparr>"

definition visit ::
  "(int \<times> int) list state_scheme \<Rightarrow> int \<Rightarrow> int \<Rightarrow> unit \<Rightarrow> (int \<times> int) list state_scheme" where
  "visit st x y args = st\<lparr>state.more := state.more st @ [(x, y)]\<rparr>"

text \<open>Two calls of \<open>findInField\<close> on a one-row field holding a carrot crop. The conditions
  are two closures of \<open>id => plot => plot && plot.itemId === id\<close>, one made with
  \<open>'carrot'\<close> and one with \<open>'pumpkin'\<close>: the same source text, different behaviour.\<close>

definition hasItemId :: "string \<Rightarrow> crop option \<Rightarrow> bool" where
  "hasItemId itemId plot = (case plot of None \<Rightarrow> False | Some c \<Rightarrow> crop_itemId c = itemId)"

definition carrotField :: "crop option list list" where
  "carrotField = [[None, Some (carrotCrop 2 1)]]"

definition findCarrot :: "arg list" where
  "findCarrot = [FieldArg carrotField,
     FunctionArg ''plot => plot && plot.itemId === id'' (hasItemId ''carrot'')]"

definition findPumpkin :: "arg list" where
  "findPumpkin = [FieldArg carrotField,
     FunctionArg ''plot => plot && plot.itemId === id'' (hasItemId ''pumpkin'')]"

text \<open>A stand-in for \<open>JSON.stringify\<close> on these argument lists: a crop is written by its
  \<open>itemId\<close> only, a function as \<open>null\<close>.\<close>

fun stringifyArg :: "arg \<Rightarrow> string" where
  "stringifyArg (FieldArg fld) =
     ''['' @ concat (map (\<lambda>row. ''['' @ concat (map (\<lambda>cell. case cell of
        None \<Rightarrow> ''null,'' | Some c \<Rightarrow> ''{itemId:'' @ crop_itemId c @ ''},'') row) @ ''],'') fld) @ '']''"
| "stringifyArg (FunctionArg src condition) = ''null''"
| "stringifyArg (StringArg s) = ''<'' @ s @ ''>''"

definition stringifyArgs :: "arg list \<Rightarrow> string" where
  "stringifyArgs args = ''['' @ concat (map (\<lambda>a. stringifyArg a @ '','') args) @ '']''"

text \<open>A pure function of a string. The serializer of a memoized function of several
  arguments writes the argument list, here the string in brackets; that of a function of one
  primitive argument is the identity.\<close>

definition stringLength :: "string \<Rightarrow> nat option" where
  "stringLength s = Some (length s)"

definition bracketed :: "string \<Rightarrow> string" where
  "bracketed s = ''['' @ s @ '']''"

section \<open>Crop life stages\<close>

lemma getLifeStageRange_eq:
  "getLifeStageRange tt = replicate (tt_SEED tt) SEED @ replicate (tt_GROWING tt) GROWING"
  by (simp add: getLifeStageRange_def)

lemma length_getLifeStageRange:
  "length (getLifeStageRange tt) = tt_SEED tt + tt_GROWING tt"
  by (simp add: getLifeStageRange_eq)

lemma getLifeStageRange_nth:
  "i < tt_SEED tt + tt_GROWING tt \<Longrightarrow>
   getLifeStageRange tt ! i = (if i < tt_SEED tt then SEED else GROWING)"
  by (simp add: getLifeStageRange_eq nth_append)

lemma getCropLifeStage_known:
  assumes "map_of itemsMap (crop_itemId c) = Some it" and "item_cropTimetable it = Some tt"
  shows "getCropLifeStage itemsMap c =
     Inr (case js_index (getLifeStageRange tt) \<lfloor>crop_daysWatered c\<rfloor> of
            Some stage \<Rightarrow> stage | None \<Rightarrow> GROWN)"
  using assms by (simp add: getCropLifeStage_def split: option.split)

lemma getCropLifeStage_stage:
  assumes "map_of itemsMap (crop_itemId c) = Some it" and "item_cropTimetable it = Some tt"
    and "\<lfloor>crop_daysWatered c\<rfloor> = int n"
  shows "getCropLifeStage itemsMap c =
     Inr (if n < tt_SEED tt then SEED
          else if n < tt_SEED tt + tt_GROWING tt then GROWING
          else GROWN)"
  by (simp add: getCropLifeStage_known [OF assms(1,2)] assms(3) js_index_def
        length_getLifeStageRange getLifeStageRange_nth)

lemma floor_between:
  fixes x :: real
  assumes "real a \<le> x" and "x < real b"
  obtains n where "\<lfloor>x\<rfloor> = int n" and "a \<le> n" and "n < b"
proof -
  have "int a \<le> \<lfloor>x\<rfloor>" "\<lfloor>x\<rfloor> < int b"
    using assms by (simp_all add: le_floor_iff floor_less_iff)
  then have "\<lfloor>x\<rfloor> = int (nat \<lfloor>x\<rfloor>)" "a \<le> nat \<lfloor>x\<rfloor>" "nat \<lfloor>x\<rfloor> < b"
    by linarith+
  then show thesis ..
qed

lemma floor_from:
  fixes x :: real
  assumes "real a \<le> x"
  obtains n where "\<lfloor>x\<rfloor> = int n" and "a \<le> n"
proof -
  have "int a \<le> \<lfloor>x\<rfloor>"
    using assms by (simp add: le_floor_iff)
  then have "\<lfloor>x\<rfloor> = int (nat \<lfloor>x\<rfloor>)" "a \<le> nat \<lfloor>x\<rfloor>"
    by linarith+
  then show thesis ..
qed

text \<open>
  Claim C1. For a crop whose item is in the catalog and has a timetable, the stage table is
  \<open>timetable[SEED]\<close> copies of \<open>SEED\<close> followed by \<open>timetable[GROWING]\<close> copies of
  \<open>GROWING\<close>; \<open>getCropLifeStage\<close> returns the entry of the table at index
  \<open>floor(daysWatered)\<close> when there is one and \<open>GROWN\<close> otherwise, in particular whenever
  the index is at or beyond the length of the table. For the timetable \<open>{SEED: 3, GROWING: 4}\<close>,
  \<open>daysWatered\<close> in \<open>[0, 3)\<close> gives \<open>SEED\<close>, in \<open>[3, 7)\<close> gives \<open>GROWING\<close>, and 7 or
  more gives \<open>GROWN\<close>. A crop with \<open>daysWatered = 0\<close> is \<open>SEED\<close> whatever its \<open>daysOld\<close>
  (for every timetable with at least one \<open>SEED\<close> day, as that one).
\<close>

theorem getCropLifeStage_table:
  assumes item: "map_of itemsMap (crop_itemId c) = Some it"
    and tt: "item_cropTimetable it = Some tt"
  shows "getLifeStageRange tt = replicate (tt_SEED tt) SEED @ replicate (tt_GROWING tt) GROWING \<and>
         getCropLifeStage itemsMap c =
           Inr (if 0 \<le> \<lfloor>crop_daysWatered c\<rfloor> \<and>
                   \<lfloor>crop_daysWatered c\<rfloor> < int (length (getLifeStageRange tt))
                then getLifeStageRange tt ! nat \<lfloor>crop_daysWatered c\<rfloor> else GROWN) \<and>
         (int (length (getLifeStageRange tt)) \<le> \<lfloor>crop_daysWatered c\<rfloor> \<longrightarrow>
            getCropLifeStage itemsMap c = Inr GROWN) \<and>
         (tt_SEED tt = 3 \<and> tt_GROWING tt = 4 \<longrightarrow>
            (0 \<le> crop_daysWatered c \<and> crop_daysWatered c < 3 \<longrightarrow>
               getCropLifeStage itemsMap c = Inr SEED) \<and>
            (3 \<le> crop_daysWatered c \<and> crop_daysWatered c < 7 \<longrightarrow>
               getCropLifeStage itemsMap c = Inr GROWING) \<and>
            (7 \<le> crop_daysWatered c \<longrightarrow> getCropLifeStage itemsMap c = Inr GROWN)) \<and>
         (crop_daysWatered c = 0 \<and> 0 < tt_SEED tt \<longrightarrow>
            getCropLifeStage itemsMap (c\<lparr>crop_daysOld := d\<rparr>) = Inr SEED)"
proof -
  note k = getCropLifeStage_known [OF item tt]
  have table: "getLifeStageRange tt =
      replicate (tt_SEED tt) SEED @ replicate (tt_GROWING tt) GROWING"
    by (rule getLifeStageRange_eq)
  have entry: "getCropLifeStage itemsMap c =
           Inr (if 0 \<le> \<lfloor>crop_daysWatered c\<rfloor> \<and>
                   \<lfloor>crop_daysWatered c\<rfloor> < int (length (getLifeStageRange tt))
                then getLifeStageRange tt ! nat \<lfloor>crop_daysWatered c\<rfloor> else GROWN)"
    by (simp add: k js_index_def)
  have beyond: "int (length (getLifeStageRange tt)) \<le> \<lfloor>crop_daysWatered c\<rfloor> \<longrightarrow>
           getCropLifeStage itemsMap c = Inr GROWN"
    by (simp add: k js_index_def)
  have example: "tt_SEED tt = 3 \<and> tt_GROWING tt = 4 \<longrightarrow>
           (0 \<le> crop_daysWatered c \<and> crop_daysWatered c < 3 \<longrightarrow>
              getCropLifeStage itemsMap c = Inr SEED) \<and>
           (3 \<le> crop_daysWatered c \<and> crop_daysWatered c < 7 \<longrightarrow>
              getCropLifeStage itemsMap c = Inr GROWING) \<and>
           (7 \<le> crop_daysWatered c \<longrightarrow> getCropLifeStage itemsMap c = Inr GROWN)"
  proof (intro impI conjI)
    assume t: "tt_SEED tt = 3 \<and> tt_GROWING tt = 4"
    { assume "0 \<le> crop_daysWatered c \<and> crop_daysWatered c < 3"
      then obtain n where "\<lfloor>crop_daysWatered c\<rfloor> = int n" "n < 3"
        using floor_between [of 0 "crop_daysWatered c" 3] by auto
      then show "getCropLifeStage itemsMap c = Inr SEED"
        using t by (simp add: getCropLifeStage_stage [OF item tt]) }
    { assume "3 \<le> crop_daysWatered c \<and> crop_daysWatered c < 7"
      then obtain n where "\<lfloor>crop_daysWatered c\<rfloor> = int n" "3 \<le> n" "n < 7"
        using floor_between [of 3 "crop_daysWatered c" 7] by auto
      then show "getCropLifeStage itemsMap c = Inr GROWING"
        using t by (simp add: getCropLifeStage_stage [OF item tt]) }
    { assume "7 \<le> crop_daysWatered c"
      then obtain n where "\<lfloor>crop_daysWatered c\<rfloor> = int n" "7 \<le> n"
        using floor_from [of 7 "crop_daysWatered c"] by auto
      then show "getCropLifeStage itemsMap c = Inr GROWN"
        using t by (simp add: getCropLifeStage_stage [OF item tt]) }
  qed
  have unwatered: "crop_daysWatered c = 0 \<and> 0 < tt_SEED tt \<longrightarrow>
           getCropLifeStage itemsMap (c\<lparr>crop_daysOld := d\<rparr>) = Inr SEED"
    using item tt
    by (simp add: getCropLifeStage_def js_index_def length_getLifeStageRange
          getLifeStageRange_nth)
  from table entry beyond example unwatered show ?thesis
    by blast
qed

theorem getCropLifeStage_table_witness:
  "map_of catalog (crop_itemId (carrotCrop 9 0)) = Some carrot \<and>
   item_cropTimetable carrot = Some \<lparr>tt_SEED = 3, tt_GROWING = 4\<rparr> \<and>
   getLifeStageRange \<lparr>tt_SEED = 3, tt_GROWING = 4\<rparr> =
     [SEED, SEED, SEED, GROWING, GROWING, GROWING, GROWING] \<and>
   crop_daysWatered (carrotCrop 9 0) = 0 \<and>
   getCropLifeStage catalog (carrotCrop 9 0) = Inr SEED \<and>
   getCropLifeStage catalog (carrotCrop 30 0) = Inr SEED \<and>
   getCropLifeStage catalog (carrotCrop 9 (5 / 2)) = Inr SEED \<and>
   getCropLifeStage catalog (carrotCrop 9 3) = Inr GROWING \<and>
   getCropLifeStage catalog (carrotCrop 9 (13 / 2)) = Inr GROWING \<and>
   getCropLifeStage catalog (carrotCrop 9 7) = Inr GROWN \<and>
   getCropLifeStage catalog (carrotCrop 9 9) = Inr GROWN"
proof -
  have item: "map_of catalog (crop_itemId (carrotCrop 9 w)) = Some carrot" for w
    by (simp add: catalog_def carrotCrop_def)
  have tt: "item_cropTimetable carrot = Some \<lparr>tt_SEED = 3, tt_GROWING = 4\<rparr>"
    by (simp add: carrot_def)
  have dw: "crop_daysWatered (carrotCrop 9 w) = w" for w
    by (simp add: carrotCrop_def)
  have old: "(carrotCrop 9 0)\<lparr>crop_daysOld := 30\<rparr> = carrotCrop 30 0"
    by (simp add: carrotCrop_def)
  let ?tt = "\<lparr>tt_SEED = 3, tt_GROWING = 4\<rparr>"
  have table: "getLifeStageRange \<lparr>tt_SEED = 3, tt_GROWING = 4\<rparr> =
     [SEED, SEED, SEED, GROWING, GROWING, GROWING, GROWING]"
    using getCropLifeStage_table
      [of catalog "carrotCrop 9 (0)" carrot ?tt 0, OF item tt,
       THEN conjunct1]
    by (simp add: numeral_eq_Suc)
  have w0: "getCropLifeStage catalog (carrotCrop 9 0) = Inr SEED"
    using getCropLifeStage_table
      [of catalog "carrotCrop 9 (0)" carrot ?tt 0, OF item tt,
       THEN conjunct2, THEN conjunct2, THEN conjunct2, THEN conjunct1]
    by (simp add: dw)
  have w0': "getCropLifeStage catalog (carrotCrop 30 0) = Inr SEED"
    using getCropLifeStage_table
      [of catalog "carrotCrop 9 (0)" carrot ?tt 30, OF item tt,
       THEN conjunct2, THEN conjunct2, THEN conjunct2, THEN conjunct2]
    by (simp add: dw old)
  have w1: "getCropLifeStage catalog (carrotCrop 9 (5 / 2)) = Inr SEED"
    using getCropLifeStage_table
      [of catalog "carrotCrop 9 (5 / 2)" carrot ?tt 0, OF item tt,
       THEN conjunct2, THEN conjunct2, THEN conjunct2, THEN conjunct1]
    by (simp add: dw)
  have w2: "getCropLifeStage catalog (carrotCrop 9 (3)) = Inr GROWING"
    using getCropLifeStage_table
      [of catalog "carrotCrop 9 (3)" carrot ?tt 0, OF item tt,
       THEN conjunct2, THEN conjunct2, THEN conjunct2, THEN conjunct1]
    by (simp add: dw)
  have w3: "getCropLifeStage catalog (carrotCrop 9 (13 / 2)) = Inr GROWING"
    using getCropLifeStage_table
      [of catalog "carrotCrop 9 (13 / 2)" carrot ?tt 0, OF item tt,
       THEN conjunct2, THEN conjunct2, THEN conjunct2, THEN conjunct1]
    by (simp add: dw)
  have w4: "getCropLifeStage catalog (carrotCrop 9 (7)) = Inr GROWN"
    using getCropLifeStage_table
      [of catalog "carrotCrop 9 (7)" carrot ?tt 0, OF item tt,
       THEN conjunct2, THEN conjunct2, THEN conjunct2, THEN conjunct1]
    by (simp add: dw)
  have w5: "getCropLifeStage catalog (carrotCrop 9 (9)) = Inr GROWN"
    using getCropLifeStage_table
      [of catalog "carrotCrop 9 (9)" carrot ?tt 0, OF item tt,
       THEN conjunct2, THEN conjunct2, THEN conjunct2, THEN conjunct1]
    by (simp add: dw)
  show ?thesis
    using item [of 0] tt table dw [of 0] w0 w0' w1 w2 w3 w4 w5 by simp
qed

section \<open>Value adjustments\<close>

lemma roundTiesToEven_ge: "real_of_int n \<le> x \<Longrightarrow> n \<le> roundTiesToEven x"
proof -
  assume "real_of_int n \<le> x"
  then have "n \<le> \<lfloor>x\<rfloor>" by (simp add: le_floor_iff)
  then show ?thesis by (simp add: roundTiesToEven_def Let_def)
qed

lemma roundTiesToEven_le: "x \<le> real_of_int n \<Longrightarrow> roundTiesToEven x \<le> n"
proof -
  assume x: "x \<le> real_of_int n"
  then have f: "\<lfloor>x\<rfloor> \<le> n" by linarith
  have "\<lfloor>x\<rfloor> + 1 \<le> n" if "x - real_of_int \<lfloor>x\<rfloor> \<ge> 1 / 2"
  proof -
    have "real_of_int \<lfloor>x\<rfloor> < x" using that by linarith
    then have "real_of_int \<lfloor>x\<rfloor> < real_of_int n" using x by linarith
    then show ?thesis by linarith
  qed
  then show ?thesis
    using f by (auto simp add: roundTiesToEven_def Let_def)
qed

lemma of_int_between:
  assumes "a \<le> q" and "q \<le> b"
  shows "real_of_int a \<le> real_of_int q \<and> real_of_int q \<le> real_of_int b"
  using assms by simp

lemma double_plus_half_bounds:
  assumes "0 \<le> r" and "r < 1"
  shows "1 / 2 \<le> double_plus_half r \<and> double_plus_half r \<le> 3 / 2"
proof (cases "r + 1 / 2 < 1")
  case True
  define q where "q = roundTiesToEven ((r + 1 / 2) * 2 ^ 53)"
  have "2 ^ 52 \<le> q"
    unfolding q_def by (rule roundTiesToEven_ge) (use assms in simp)
  moreover have "q \<le> 2 ^ 53"
    unfolding q_def by (rule roundTiesToEven_le) (use True in simp)
  ultimately have "real_of_int (2 ^ 52) \<le> real_of_int q \<and> real_of_int q \<le> real_of_int (2 ^ 53)"
    by (rule of_int_between)
  then have "1 / 2 \<le> real_of_int q / 2 ^ 53 \<and> real_of_int q / 2 ^ 53 \<le> 3 / 2"
    by (simp add: field_simps)
  then show ?thesis
    using True by (simp add: double_plus_half_def Let_def q_def)
next
  case False
  define q where "q = roundTiesToEven ((r + 1 / 2) * 2 ^ 52)"
  have "2 ^ 52 \<le> q"
    unfolding q_def by (rule roundTiesToEven_ge) (use False in simp)
  moreover have "q \<le> 3 * 2 ^ 51"
    unfolding q_def by (rule roundTiesToEven_le) (use assms in simp)
  ultimately have "real_of_int (2 ^ 52) \<le> real_of_int q \<and> real_of_int q \<le> real_of_int (3 * 2 ^ 51)"
    by (rule of_int_between)
  then have "1 / 2 \<le> real_of_int q / 2 ^ 52 \<and> real_of_int q / 2 ^ 52 \<le> 3 / 2"
    by (simp add: field_simps)
  then show ?thesis
    using False by (simp add: double_plus_half_def Let_def q_def)
qed

lemma double_plus_half_top: "double_plus_half (1 - 1 / 2 ^ 53) = 3 / 2"
  by (simp add: double_plus_half_def roundTiesToEven_def Let_def)

lemma double_plus_half_quarter: "double_plus_half (1 / 4) = 3 / 4"
  by (simp add: double_plus_half_def roundTiesToEven_def Let_def)


lemma valueAdjustment_step_other:
  "k \<noteq> key \<Longrightarrow>
   fst (valueAdjustment_step itemsMap priceCrashes priceSurges rnd st key) k = fst st k"
  by (cases st)
    (simp add: valueAdjustment_step_def assignProperty_def split: option.split)

lemma valueAdjustment_step_key:
  "fst (valueAdjustment_step itemsMap priceCrashes priceSurges rnd st key) key =
     (case map_of itemsMap key of
        None \<Rightarrow> fst st key
      | Some it \<Rightarrow>
          if doesPriceFluctuate it \<and> key \<noteq> ''__proto__'' then
            Some (if truthyProperty priceCrashes key then 0.5
                  else if truthyProperty priceSurges key then 1.5
                  else double_plus_half (rnd (snd st)))
          else fst st key)"
  by (cases st)
    (auto simp add: valueAdjustment_step_def assignProperty_def split: option.split)

lemma valueAdjustment_step_count:
  "snd (valueAdjustment_step itemsMap priceCrashes priceSurges rnd st key) =
     snd st +
     (if (case map_of itemsMap key of
            None \<Rightarrow> False
          | Some it \<Rightarrow> doesPriceFluctuate it \<and> \<not> truthyProperty priceCrashes key \<and>
                       \<not> truthyProperty priceSurges key)
      then 1 else 0)"
  by (cases st) (auto simp add: valueAdjustment_step_def split: option.split)

lemma valueAdjustments_untouched:
  "k \<notin> set ks \<Longrightarrow>
   fst (foldl (valueAdjustment_step itemsMap priceCrashes priceSurges rnd) st ks) k = fst st k"
  by (induction ks arbitrary: st) (simp_all add: valueAdjustment_step_other)

lemma valueAdjustments_count:
  "snd (foldl (valueAdjustment_step itemsMap priceCrashes priceSurges rnd) st ks) =
     snd st +
     length (filter (\<lambda>key. case map_of itemsMap key of
                None \<Rightarrow> False
              | Some it \<Rightarrow> doesPriceFluctuate it \<and> \<not> truthyProperty priceCrashes key \<and>
                           \<not> truthyProperty priceSurges key) ks)"
  by (induction ks arbitrary: st) (simp_all add: valueAdjustment_step_count)

lemma valueAdjustments_fold:
  fixes priceCrashes priceSurges :: "string \<rightharpoonup> priceEvent" and rnd :: random
  defines "g \<equiv> \<lambda>k m. if truthyProperty priceCrashes k then 0.5
                     else if truthyProperty priceSurges k then 1.5
                     else double_plus_half (rnd m)"
  shows "(case map_of itemsMap k of
      Some it \<Rightarrow>
        if doesPriceFluctuate it \<and> k \<in> set ks \<and> k \<noteq> ''__proto__''
        then \<exists>m. fst (foldl (valueAdjustment_step itemsMap priceCrashes priceSurges rnd) st ks) k
                 = Some (g k m)
        else fst (foldl (valueAdjustment_step itemsMap priceCrashes priceSurges rnd) st ks) k
               = fst st k
    | None \<Rightarrow>
        fst (foldl (valueAdjustment_step itemsMap priceCrashes priceSurges rnd) st ks) k
          = fst st k)"
proof (induction ks rule: rev_induct)
  case Nil
  show ?case by (simp split: option.split)
next
  case (snoc key ks)
  let ?st = "foldl (valueAdjustment_step itemsMap priceCrashes priceSurges rnd) st ks"
  show ?case
  proof (cases "k = key")
    case True
    show ?thesis
    proof (cases "map_of itemsMap key")
      case None
      with True snoc show ?thesis
        by (simp add: valueAdjustment_step_key)
    next
      case (Some it)
      show ?thesis
      proof (cases "doesPriceFluctuate it \<and> key \<noteq> ''__proto__''")
        case fl: True
        have "fst (valueAdjustment_step itemsMap priceCrashes priceSurges rnd ?st key) key =
            Some (g key (snd ?st))"
          using Some fl by (simp add: valueAdjustment_step_key g_def)
        then show ?thesis
          using True Some fl by auto
      next
        case False
        then have "fst (valueAdjustment_step itemsMap priceCrashes priceSurges rnd ?st key) key =
            fst ?st key"
          using Some by (auto simp add: valueAdjustment_step_key)
        with False True Some snoc show ?thesis
          by auto
      qed
    qed
  next
    case False
    with snoc show ?thesis
      by (auto simp add: valueAdjustment_step_other split: option.splits)
  qed
qed

lemma valueAdjustments_sample:
  fixes priceCrashes priceSurges :: "string \<rightharpoonup> priceEvent" and itemsMap :: itemsMap
  defines "sampled \<equiv> \<lambda>key. case map_of itemsMap key of
                None \<Rightarrow> False
              | Some it \<Rightarrow> doesPriceFluctuate it \<and> \<not> truthyProperty priceCrashes key \<and>
                           \<not> truthyProperty priceSurges key"
  assumes d: "distinct ks" and k: "k \<in> set ks" and s: "sampled k"
  shows "fst (foldl (valueAdjustment_step itemsMap priceCrashes priceSurges rnd) st ks) k =
     Some (double_plus_half
             (rnd (snd st + length (filter sampled (takeWhile (\<lambda>key. key \<noteq> k) ks)))))"
  using d k
proof (induction ks arbitrary: st)
  case Nil
  then show ?case by simp
next
  case (Cons x xs)
  have proto: "k \<noteq> ''__proto__''"
    using s
    by (auto simp add: sampled_def truthyProperty_def Object_prototype_keys_def
        split: option.splits)
  show ?case
  proof (cases "k = x")
    case True
    then have "k \<notin> set xs" using Cons.prems by simp
    then have "fst (foldl (valueAdjustment_step itemsMap priceCrashes priceSurges rnd) st (x # xs)) k =
        fst (valueAdjustment_step itemsMap priceCrashes priceSurges rnd st x) k"
      by (simp add: valueAdjustments_untouched)
    also have "\<dots> = Some (double_plus_half (rnd (snd st)))"
      using True s proto
      by (auto simp add: valueAdjustment_step_key sampled_def split: option.splits)
    finally show ?thesis
      using True by simp
  next
    case False
    then have in_xs: "k \<in> set xs" and dx: "distinct xs"
      using Cons.prems by simp_all
    have "fst (foldl (valueAdjustment_step itemsMap priceCrashes priceSurges rnd)
              (valueAdjustment_step itemsMap priceCrashes priceSurges rnd st x) xs) k =
        Some (double_plus_half
          (rnd (snd (valueAdjustment_step itemsMap priceCrashes priceSurges rnd st x) +
                length (filter sampled (takeWhile (\<lambda>key. key \<noteq> k) xs)))))"
      by (rule Cons.IH [OF dx in_xs])
    then show ?thesis
      using False
      by (simp add: valueAdjustment_step_count sampled_def)
  qed
qed


lemma map_of_Some_key: "map_of xs k = Some v \<Longrightarrow> k \<in> set (map fst xs)"
  by (metis map_of_eq_None_iff option.distinct(1) set_map)

lemma truthyProperty_own:
  "k \<notin> set Object_prototype_keys \<Longrightarrow> truthyProperty obj k = (obj k \<noteq> None)"
  by (simp add: truthyProperty_def)

lemma truthyProperty_inherited:
  "k \<in> set Object_prototype_keys \<Longrightarrow> truthyProperty obj k"
  by (simp add: truthyProperty_def)

text \<open>
  Claim C2, as amended. With \<open>Math.random\<close> returning results in \<open>[0, 1)\<close>, the object
  returned by \<open>generateValueAdjustments(priceCrashes, priceSurges)\<close> has exactly the keys of
  the catalog items flagged \<open>doesPriceFluctuate\<close> (an own key \<open>__proto__\<close> of the catalog
  apart, which the assignment cannot write). For such an item whose id is not the name of a
  member of \<open>Object.prototype\<close> the value is 0.5 when a crash event targets it (also when a
  surge does too), otherwise 1.5 when a surge event targets it, otherwise the double
  \<open>Math.random() + 0.5\<close>, a value \<open>v\<close> with \<open>0.5 \<le> v \<le> 1.5\<close>: the result of the draw whose
  number is the number of items before it in the catalog that drew too. An item whose id
  names a member of \<open>Object.prototype\<close> gets 0.5, as if a crash targeted it. An item not
  flagged is absent from the object. The number of draws is the number of flagged items that
  no event targets.
\<close>

theorem generateValueAdjustments_spec:
  fixes itemsMap :: itemsMap and priceCrashes priceSurges :: "string \<rightharpoonup> priceEvent"
    and rnd :: random
  defines "sampled \<equiv> \<lambda>key. case map_of itemsMap key of
                None \<Rightarrow> False
              | Some it \<Rightarrow> doesPriceFluctuate it \<and> \<not> truthyProperty priceCrashes key \<and>
                           \<not> truthyProperty priceSurges key"
    and "result \<equiv> generateValueAdjustments itemsMap rnd priceCrashes priceSurges"
  assumes rnd: "\<forall>n. 0 \<le> rnd n \<and> rnd n < 1"
  shows "dom (fst result) =
           {k. \<exists>it. map_of itemsMap k = Some it \<and> doesPriceFluctuate it \<and> k \<noteq> ''__proto__''} \<and>
         (\<forall>k it. map_of itemsMap k = Some it \<and> doesPriceFluctuate it \<and>
                 k \<notin> set Object_prototype_keys \<longrightarrow>
            (priceCrashes k \<noteq> None \<longrightarrow> fst result k = Some 0.5) \<and>
            (priceCrashes k = None \<and> priceSurges k \<noteq> None \<longrightarrow> fst result k = Some 1.5) \<and>
            (priceCrashes k = None \<and> priceSurges k = None \<longrightarrow>
               (\<exists>m. fst result k = Some (double_plus_half (rnd m)) \<and>
                    0.5 \<le> double_plus_half (rnd m) \<and> double_plus_half (rnd m) \<le> 1.5) \<and>
               (distinct (map fst itemsMap) \<longrightarrow>
                  fst result k =
                    Some (double_plus_half (rnd (length (filter sampled
                      (takeWhile (\<lambda>key. key \<noteq> k) (map fst itemsMap))))))))) \<and>
         (\<forall>k it. map_of itemsMap k = Some it \<and> doesPriceFluctuate it \<and>
                 k \<in> set Object_prototype_keys \<and> k \<noteq> ''__proto__'' \<longrightarrow>
            fst result k = Some 0.5) \<and>
         (\<forall>k it. map_of itemsMap k = Some it \<and> \<not> doesPriceFluctuate it \<longrightarrow>
            fst result k = None) \<and>
         snd result = length (filter sampled (map fst itemsMap))"
proof -
  let ?r = "fst result"
  note f = valueAdjustments_fold
    [where itemsMap = itemsMap and ks = "map fst itemsMap" and priceCrashes = priceCrashes
       and priceSurges = priceSurges and rnd = rnd and st = "(Map.empty, 0)",
     folded generateValueAdjustments_def, folded result_def]
  have fluct: "\<exists>m. ?r k = Some (if truthyProperty priceCrashes k then 0.5
         else if truthyProperty priceSurges k then 1.5 else double_plus_half (rnd m))"
    if "map_of itemsMap k = Some it" "doesPriceFluctuate it" "k \<noteq> ''__proto__''" for k it
    using f [where k = k] that map_of_Some_key [OF that(1)] by simp
  have flat: "?r k = None" if "map_of itemsMap k = Some it" "\<not> doesPriceFluctuate it" for k it
    using f [where k = k] that by simp
  have proto: "?r ''__proto__'' = None"
    using f [where k = "''__proto__''"] by (simp split: option.splits)
  have absent: "?r k = None" if "map_of itemsMap k = None" for k
    using f [where k = k] that by simp
  have d: "dom ?r =
      {k. \<exists>it. map_of itemsMap k = Some it \<and> doesPriceFluctuate it \<and> k \<noteq> ''__proto__''}"
  proof (intro set_eqI iffI)
    fix k assume "k \<in> dom ?r"
    then have some: "?r k \<noteq> None" by auto
    then obtain it where it: "map_of itemsMap k = Some it"
      using absent [of k] by (cases "map_of itemsMap k") auto
    then have "doesPriceFluctuate it"
      using flat [of k it] some by blast
    moreover have "k \<noteq> ''__proto__''"
      using proto some by auto
    ultimately show "k \<in> {k. \<exists>it. map_of itemsMap k = Some it \<and> doesPriceFluctuate it \<and>
        k \<noteq> ''__proto__''}"
      using it by blast
  next
    fix k assume "k \<in> {k. \<exists>it. map_of itemsMap k = Some it \<and> doesPriceFluctuate it \<and>
        k \<noteq> ''__proto__''}"
    then show "k \<in> dom ?r" using fluct by blast
  qed
  have own: "(priceCrashes k \<noteq> None \<longrightarrow> ?r k = Some 0.5) \<and>
        (priceCrashes k = None \<and> priceSurges k \<noteq> None \<longrightarrow> ?r k = Some 1.5) \<and>
        (priceCrashes k = None \<and> priceSurges k = None \<longrightarrow>
           (\<exists>m. ?r k = Some (double_plus_half (rnd m)) \<and>
                0.5 \<le> double_plus_half (rnd m) \<and> double_plus_half (rnd m) \<le> 1.5) \<and>
           (distinct (map fst itemsMap) \<longrightarrow>
              ?r k = Some (double_plus_half (rnd (length (filter sampled
                      (takeWhile (\<lambda>key. key \<noteq> k) (map fst itemsMap))))))))"
    if mk: "map_of itemsMap k = Some it" and fl: "doesPriceFluctuate it"
      and np: "k \<notin> set Object_prototype_keys" for k it
  proof -
    have k_proto: "k \<noteq> ''__proto__''"
      using np by (auto simp add: Object_prototype_keys_def)
    obtain m where m: "?r k = Some (if truthyProperty priceCrashes k then 0.5
         else if truthyProperty priceSurges k then 1.5 else double_plus_half (rnd m))"
      using fluct [OF mk fl k_proto] by blast
    have b: "0.5 \<le> double_plus_half (rnd m) \<and> double_plus_half (rnd m) \<le> 1.5"
      using double_plus_half_bounds [of "rnd m"] rnd [rule_format, of m] by simp
    have exact: "?r k = Some (double_plus_half (rnd (length (filter sampled
                      (takeWhile (\<lambda>key. key \<noteq> k) (map fst itemsMap))))))"
      if none: "priceCrashes k = None \<and> priceSurges k = None"
        and dist: "distinct (map fst itemsMap)"
    proof -
      have s: "case map_of itemsMap k of
                None \<Rightarrow> False
              | Some it \<Rightarrow> doesPriceFluctuate it \<and> \<not> truthyProperty priceCrashes k \<and>
                           \<not> truthyProperty priceSurges k"
        using mk fl none np by (simp add: truthyProperty_own)
      show ?thesis
        using valueAdjustments_sample [OF dist map_of_Some_key [OF mk] s,
            where rnd = rnd and st = "(Map.empty, 0)"]
        by (simp add: result_def generateValueAdjustments_def sampled_def)
    qed
    have m': "?r k = Some (if priceCrashes k \<noteq> None then 0.5
         else if priceSurges k \<noteq> None then 1.5 else double_plus_half (rnd m))"
      using m by (simp only: truthyProperty_own [OF np])
    have crash: "priceCrashes k \<noteq> None \<longrightarrow> ?r k = Some 0.5"
      using m' by simp
    have surge: "priceCrashes k = None \<and> priceSurges k \<noteq> None \<longrightarrow> ?r k = Some 1.5"
      using m' by simp
    have drawn: "priceCrashes k = None \<and> priceSurges k = None \<longrightarrow>
           (\<exists>m. ?r k = Some (double_plus_half (rnd m)) \<and>
                0.5 \<le> double_plus_half (rnd m) \<and> double_plus_half (rnd m) \<le> 1.5) \<and>
           (distinct (map fst itemsMap) \<longrightarrow>
              ?r k = Some (double_plus_half (rnd (length (filter sampled
                      (takeWhile (\<lambda>key. key \<noteq> k) (map fst itemsMap)))))))"
    proof (intro impI conjI)
      assume none: "priceCrashes k = None \<and> priceSurges k = None"
      then have "?r k = Some (double_plus_half (rnd m))"
        using m' by simp
      with b show "\<exists>m. ?r k = Some (double_plus_half (rnd m)) \<and>
                0.5 \<le> double_plus_half (rnd m) \<and> double_plus_half (rnd m) \<le> 1.5"
        by blast
      assume "distinct (map fst itemsMap)"
      with none show "?r k = Some (double_plus_half (rnd (length (filter sampled
                      (takeWhile (\<lambda>key. key \<noteq> k) (map fst itemsMap))))))"
        by (rule exact)
    qed
    from crash surge drawn show ?thesis
      by (intro conjI)
  qed
  have inherited: "?r k = Some 0.5"
    if "map_of itemsMap k = Some it" "doesPriceFluctuate it"
      "k \<in> set Object_prototype_keys" "k \<noteq> ''__proto__''" for k it
    using fluct [OF that(1,2,4)] truthyProperty_inherited [OF that(3), of priceCrashes]
    by auto
  have count: "snd result = length (filter sampled (map fst itemsMap))"
    using valueAdjustments_count [where itemsMap = itemsMap and ks = "map fst itemsMap"
        and priceCrashes = priceCrashes and priceSurges = priceSurges and rnd = rnd
        and st = "(Map.empty, 0)"]
    by (simp add: result_def generateValueAdjustments_def sampled_def)
  show ?thesis
  proof (rule conjI)
    show "dom ?r =
      {k. \<exists>it. map_of itemsMap k = Some it \<and> doesPriceFluctuate it \<and> k \<noteq> ''__proto__''}"
      by (rule d)
  next
    show "(\<forall>k it. map_of itemsMap k = Some it \<and> doesPriceFluctuate it \<and>
                 k \<notin> set Object_prototype_keys \<longrightarrow>
            (priceCrashes k \<noteq> None \<longrightarrow> fst result k = Some 0.5) \<and>
            (priceCrashes k = None \<and> priceSurges k \<noteq> None \<longrightarrow> fst result k = Some 1.5) \<and>
            (priceCrashes k = None \<and> priceSurges k = None \<longrightarrow>
               (\<exists>m. fst result k = Some (double_plus_half (rnd m)) \<and>
                    0.5 \<le> double_plus_half (rnd m) \<and> double_plus_half (rnd m) \<le> 1.5) \<and>
               (distinct (map fst itemsMap) \<longrightarrow>
                  fst result k =
                    Some (double_plus_half (rnd (length (filter sampled
                      (takeWhile (\<lambda>key. key \<noteq> k) (map fst itemsMap))))))))) \<and>
         (\<forall>k it. map_of itemsMap k = Some it \<and> doesPriceFluctuate it \<and>
                 k \<in> set Object_prototype_keys \<and> k \<noteq> ''__proto__'' \<longrightarrow>
            fst result k = Some 0.5) \<and>
         (\<forall>k it. map_of itemsMap k = Some it \<and> \<not> doesPriceFluctuate it \<longrightarrow>
            fst result k = None) \<and>
         snd result = length (filter sampled (map fst itemsMap))"
    proof (intro conjI allI)
      fix k it
      show "map_of itemsMap k = Some it \<and> doesPriceFluctuate it \<and>
                 k \<notin> set Object_prototype_keys \<longrightarrow>
            (priceCrashes k \<noteq> None \<longrightarrow> fst result k = Some 0.5) \<and>
            (priceCrashes k = None \<and> priceSurges k \<noteq> None \<longrightarrow> fst result k = Some 1.5) \<and>
            (priceCrashes k = None \<and> priceSurges k = None \<longrightarrow>
               (\<exists>m. fst result k = Some (double_plus_half (rnd m)) \<and>
                    0.5 \<le> double_plus_half (rnd m) \<and> double_plus_half (rnd m) \<le> 1.5) \<and>
               (distinct (map fst itemsMap) \<longrightarrow>
                  fst result k =
                    Some (double_plus_half (rnd (length (filter sampled
                      (takeWhile (\<lambda>key. key \<noteq> k) (map fst itemsMap))))))))"
      proof (rule impI)
        assume a: "map_of itemsMap k = Some it \<and> doesPriceFluctuate it \<and>
                 k \<notin> set Object_prototype_keys"
        show "(priceCrashes k \<noteq> None \<longrightarrow> fst result k = Some 0.5) \<and>
            (priceCrashes k = None \<and> priceSurges k \<noteq> None \<longrightarrow> fst result k = Some 1.5) \<and>
            (priceCrashes k = None \<and> priceSurges k = None \<longrightarrow>
               (\<exists>m. fst result k = Some (double_plus_half (rnd m)) \<and>
                    0.5 \<le> double_plus_half (rnd m) \<and> double_plus_half (rnd m) \<le> 1.5) \<and>
               (distinct (map fst itemsMap) \<longrightarrow>
                  fst result k =
                    Some (double_plus_half (rnd (length (filter sampled
                      (takeWhile (\<lambda>key. key \<noteq> k) (map fst itemsMap))))))))"
          by (rule own [OF a [THEN conjunct1] a [THEN conjunct2, THEN conjunct1]
                a [THEN conjunct2, THEN conjunct2]])
      qed
    next
      fix k it
      show "map_of itemsMap k = Some it \<and> doesPriceFluctuate it \<and>
                 k \<in> set Object_prototype_keys \<and> k \<noteq> ''__proto__'' \<longrightarrow>
            fst result k = Some 0.5"
        using inherited [of k it] by simp
    next
      fix k it
      show "map_of itemsMap k = Some it \<and> \<not> doesPriceFluctuate it \<longrightarrow>
            fst result k = None"
        using flat [of k it] by simp
    next
      show "snd result = length (filter sampled (map fst itemsMap))"
        by (rule count)
    qed
  qed
qed


theorem generateValueAdjustments_spec_witness:
  "(\<forall>n. 0 \<le> dyadicSamples n \<and> dyadicSamples n < 1) \<and>
   distinct (map fst catalog) \<and>
   dom (fst (generateValueAdjustments catalog dyadicSamples Map.empty surges2)) =
     {''carrot'', ''pumpkin'', ''spinach''} \<and>
   fst (generateValueAdjustments catalog dyadicSamples Map.empty surges2) ''carrot'' = Some 1 \<and>
   fst (generateValueAdjustments catalog dyadicSamples Map.empty surges2) ''pumpkin'' =
     Some 1.5 \<and>
   fst (generateValueAdjustments catalog dyadicSamples Map.empty surges2) ''spinach'' =
     Some (3 / 4) \<and>
   fst (generateValueAdjustments catalog dyadicSamples Map.empty surges2) ''scarecrow'' = None \<and>
   snd (generateValueAdjustments catalog dyadicSamples Map.empty surges2) = 2 \<and>
   fst (generateValueAdjustments catalog dyadicSamples crashes1 surges1) ''carrot'' = Some 0.5 \<and>
   fst (generateValueAdjustments inheritedCatalog dyadicSamples Map.empty Map.empty)
     ''constructor'' = Some 0.5"
proof -
  let ?r = "generateValueAdjustments catalog dyadicSamples Map.empty surges2"
  have rnd: "\<forall>n. 0 \<le> dyadicSamples n \<and> dyadicSamples n < 1"
  proof
    fix n
    have "(1 :: real) \<le> 2 ^ n"
      by simp
    then have "(1 :: real) < 2 * 2 ^ n"
      by linarith
    then show "0 \<le> dyadicSamples n \<and> dyadicSamples n < 1"
      by (simp add: dyadicSamples_def)
  qed
  have dist: "distinct (map fst catalog)"
    by (simp add: catalog_def)
  note spec = generateValueAdjustments_spec
    [OF rnd, where itemsMap = catalog and priceCrashes = Map.empty and priceSurges = surges2]
  note spec1 = generateValueAdjustments_spec
    [OF rnd, where itemsMap = catalog and priceCrashes = crashes1 and priceSurges = surges1]
  have carrot: "map_of catalog ''carrot'' = Some carrot \<and> doesPriceFluctuate carrot \<and>
      ''carrot'' \<notin> set Object_prototype_keys"
    and pumpkin: "map_of catalog ''pumpkin'' = Some pumpkin \<and> doesPriceFluctuate pumpkin \<and>
      ''pumpkin'' \<notin> set Object_prototype_keys"
    and spinach: "map_of catalog ''spinach'' = Some spinach \<and> doesPriceFluctuate spinach \<and>
      ''spinach'' \<notin> set Object_prototype_keys"
    and scarecrow: "map_of catalog ''scarecrow'' = Some scarecrow \<and>
      \<not> doesPriceFluctuate scarecrow"
    by (simp_all add: catalog_def carrot_def pumpkin_def spinach_def scarecrow_def
          Object_prototype_keys_def)
  have keys: "{k. \<exists>it. map_of catalog k = Some it \<and> doesPriceFluctuate it \<and> k \<noteq> ''__proto__''} =
      {''carrot'', ''pumpkin'', ''spinach''}"
    by (auto simp add: catalog_def carrot_def pumpkin_def spinach_def scarecrow_def
          split: if_splits)
  have d: "dom (fst ?r) = {''carrot'', ''pumpkin'', ''spinach''}"
    using spec [THEN conjunct1] keys by simp
  have none_c: "Map.empty ''carrot'' = (None :: priceEvent option) \<and> surges2 ''carrot'' = None"
    and none_s: "Map.empty ''spinach'' = (None :: priceEvent option) \<and> surges2 ''spinach'' = None"
    and surge_p: "Map.empty ''pumpkin'' = (None :: priceEvent option) \<and>
      surges2 ''pumpkin'' \<noteq> None"
    by (simp_all add: surges2_def)
  have c: "fst ?r ''carrot'' = Some 1"
    using spec [THEN conjunct2, THEN conjunct1, rule_format, OF carrot,
        THEN conjunct2, THEN conjunct2, rule_format, OF none_c,
        THEN conjunct2, rule_format, OF dist]
    by (simp add: catalog_def dyadicSamples_def double_plus_half_def roundTiesToEven_def
          Let_def)
  have p: "fst ?r ''pumpkin'' = Some 1.5"
    using spec [THEN conjunct2, THEN conjunct1, rule_format, OF pumpkin,
        THEN conjunct2, THEN conjunct1, rule_format, OF surge_p]
    by simp
  have s: "fst ?r ''spinach'' = Some (3 / 4)"
    using spec [THEN conjunct2, THEN conjunct1, rule_format, OF spinach,
        THEN conjunct2, THEN conjunct2, rule_format, OF none_s,
        THEN conjunct2, rule_format, OF dist]
    by (simp add: catalog_def carrot_def pumpkin_def scarecrow_def surges2_def
          truthyProperty_def Object_prototype_keys_def
          dyadicSamples_def double_plus_half_def roundTiesToEven_def Let_def)
  have n: "fst ?r ''scarecrow'' = None"
    using spec [THEN conjunct2, THEN conjunct2, THEN conjunct2, THEN conjunct1, rule_format,
        OF scarecrow] .
  have cnt: "snd ?r = 2"
    using spec [THEN conjunct2, THEN conjunct2, THEN conjunct2, THEN conjunct2]
    by (simp add: catalog_def carrot_def pumpkin_def spinach_def scarecrow_def surges2_def
          truthyProperty_def Object_prototype_keys_def)
  have crash: "crashes1 ''carrot'' \<noteq> None"
    by (simp add: crashes1_def)
  have c1: "fst (generateValueAdjustments catalog dyadicSamples crashes1 surges1) ''carrot'' =
      Some 0.5"
    using spec1 [THEN conjunct2, THEN conjunct1, rule_format, OF carrot,
        THEN conjunct1, rule_format, OF crash] .
  note spec2 = generateValueAdjustments_spec
    [OF rnd, where itemsMap = inheritedCatalog and priceCrashes = Map.empty
       and priceSurges = Map.empty]
  have named: "map_of inheritedCatalog ''constructor'' =
        Some \<lparr>item_id = ''constructor'', item_value = Some 10, doesPriceFluctuate = True,
          item_cropTimetable = None\<rparr> \<and>
      doesPriceFluctuate \<lparr>item_id = ''constructor'', item_value = Some 10,
        doesPriceFluctuate = True, item_cropTimetable = None\<rparr> \<and>
      ''constructor'' \<in> set Object_prototype_keys \<and> ''constructor'' \<noteq> ''__proto__''"
    by (simp add: inheritedCatalog_def Object_prototype_keys_def)
  have i: "fst (generateValueAdjustments inheritedCatalog dyadicSamples Map.empty Map.empty)
      ''constructor'' = Some 0.5"
    using spec2 [THEN conjunct2, THEN conjunct2, THEN conjunct1, rule_format, OF named] .
  show ?thesis
    using rnd dist d c p s n cnt c1 i by blast
qed

text \<open>
  The claim as stated fails in two places. The sampled value is not always below 1.5: when
  \<open>Math.random()\<close> returns the largest double below 1, the sum \<open>Math.random() + 0.5\<close> is
  rounded to exactly 1.5. And reading \<open>priceCrashes[key]\<close> finds the members that a plain
  object inherits, so an item with the id \<open>constructor\<close> gets 0.5 with no crash event, and an
  own key \<open>__proto__\<close> of the catalog is never written.
\<close>

theorem generateValueAdjustments_counterexample:
  "0 \<le> almostOne 0 \<and> almostOne 0 < 1 \<and>
   fst (generateValueAdjustments catalog almostOne crashes1 surges1) ''spinach'' = Some 1.5 \<and>
   \<not> (1.5 :: real) < 1.5 \<and>
   fst (generateValueAdjustments inheritedCatalog almostOne Map.empty Map.empty)
     ''constructor'' = Some 0.5 \<and>
   fst (generateValueAdjustments inheritedCatalog almostOne Map.empty Map.empty)
     ''__proto__'' = None"
proof -
  have top: "double_plus_half (1 - 1 / 2 ^ 53) = 3 / 2"
    by (simp add: double_plus_half_def roundTiesToEven_def Let_def)
  have top0: "double_plus_half (almostOne 0) = 3 / 2"
    unfolding almostOne_def by (rule top)
  have a: "0 \<le> almostOne 0 \<and> almostOne 0 < 1"
    by (simp add: almostOne_def)
  have s: "fst (generateValueAdjustments catalog almostOne crashes1 surges1) ''spinach'' =
      Some 1.5"
    by (simp add: generateValueAdjustments_def valueAdjustment_step_def catalog_def carrot_def
          pumpkin_def spinach_def scarecrow_def crashes1_def surges1_def truthyProperty_def
          assignProperty_def Object_prototype_keys_def top0)
  have c: "fst (generateValueAdjustments inheritedCatalog almostOne Map.empty Map.empty)
     ''constructor'' = Some 0.5"
    by (simp add: generateValueAdjustments_def valueAdjustment_step_def inheritedCatalog_def
          truthyProperty_def assignProperty_def Object_prototype_keys_def)
  have p: "fst (generateValueAdjustments inheritedCatalog almostOne Map.empty Map.empty)
     ''__proto__'' = None"
    by (simp add: generateValueAdjustments_def valueAdjustment_step_def inheritedCatalog_def
          truthyProperty_def assignProperty_def Object_prototype_keys_def)
  show ?thesis
    using a s c p by simp
qed

section \<open>Cows\<close>

lemma generateCow_given:
  assumes "o_color options = Some c" and "o_colorsInBloodline options = Some b"
    and "o_baseWeight options = Some w"
  shows "color (fst (generateCow k t rnd n options)) = c"
    and "colorsInBloodline (fst (generateCow k t rnd n options)) = b"
    and "baseWeight (fst (generateCow k t rnd n options)) = w"
  using assms by (simp_all add: generateCow_def Let_def split: prod.split option.split)

lemma generateCow_offspring:
  assumes "o_gender options = None" and "o_color options = Some c"
    and "o_colorsInBloodline options = Some b" and "o_baseWeight options = Some w"
    and "o_daysOld options = None" and "o_daysSinceMilking options = None"
    and "o_happiness options = None" and "o_happinessBoostsToday options = None"
    and "o_id options = None" and "o_isUsingHuggingMachine options = None"
    and "o_name options = None" and "o_weightMultiplier options = None"
  shows "generateCow k t rnd n options =
     (let n3 = (if c \<noteq> None \<and> c \<noteq> Some [] then Suc (Suc n) else Suc (Suc (Suc n))) in
      (\<lparr> baseWeight = w, color = c, colorsInBloodline = b, daysOld = 1, daysSinceMilking = 0,
         gender = chooseRandom (genders_values t) (rnd n), happiness = 0,
         happinessBoostsToday = 0, cow_id = createUniqueId t (rnd n3),
         isUsingHuggingMachine = False, name = chooseRandom (fruitNames t) (rnd (Suc n3)),
         weightMultiplier = 1 \<rparr>, Suc (Suc n3)))"
  using assms
  by (cases c) (simp_all add: generateCow_def Let_def split: prod.split option.split)

text \<open>
  Claim C3. \<open>generateOffspringCow(cowA, cowB)\<close> raises an error if and only if
  \<open>cowA.gender\<close> equals \<open>cowB.gender\<close>, and the error raised carries both cows. When the
  genders differ the call succeeds, and what it returns is not one of the parents or a blank
  cow: it is the cow that \<open>generateCow\<close> makes from the options \<open>color\<close>,
  \<open>colorsInBloodline\<close> and \<open>baseWeight\<close> inherited from the parents (the father being
  \<open>cowA\<close> when that is male, \<open>cowB\<close> otherwise), that is, a newborn with the father's color,
  both parents' bloodlines and colors, the mean of their base weights, a gender and a name
  drawn at random, a fresh id, and every other field at its initial value.
\<close>

theorem generateOffspringCow_error:
  "(generateOffspringCow k t rnd n cow1 cow2 = Inl (SameGenderError cow1 cow2)) =
     (gender cow1 = gender cow2) \<and>
   (\<exists>e. generateOffspringCow k t rnd n cow1 cow2 = Inl e) = (gender cow1 = gender cow2) \<and>
   (gender cow1 \<noteq> gender cow2 \<longrightarrow>
      (let father = (if gender cow1 = Some MALE then cow1 else cow2);
           mother = (if gender cow1 = Some MALE then cow2 else cow1);
           bloodline = [propertyKey (color father) \<mapsto> True] ++
                       [propertyKey (color mother) \<mapsto> True] ++
                       colorsInBloodline father ++ colorsInBloodline mother;
           weight = (baseWeight father + baseWeight mother) / 2;
           n3 = (if color father \<noteq> None \<and> color father \<noteq> Some []
                 then Suc (Suc n) else Suc (Suc (Suc n)))
       in generateOffspringCow k t rnd n cow1 cow2 =
            Inr (generateCow k t rnd n
                   (noOptions\<lparr>o_color := Some (color father),
                      o_colorsInBloodline := Some bloodline,
                      o_baseWeight := Some weight\<rparr>)) \<and>
          generateOffspringCow k t rnd n cow1 cow2 =
            Inr (\<lparr> baseWeight = weight, color = color father, colorsInBloodline = bloodline,
                    daysOld = 1, daysSinceMilking = 0,
                    gender = chooseRandom (genders_values t) (rnd n), happiness = 0,
                    happinessBoostsToday = 0, cow_id = createUniqueId t (rnd n3),
                    isUsingHuggingMachine = False,
                    name = chooseRandom (fruitNames t) (rnd (Suc n3)),
                    weightMultiplier = 1 \<rparr>, Suc (Suc n3))))"
proof -
  have guard: "(generateOffspringCow k t rnd n cow1 cow2 = Inl (SameGenderError cow1 cow2)) =
      (gender cow1 = gender cow2)"
    "(\<exists>e. generateOffspringCow k t rnd n cow1 cow2 = Inl e) = (gender cow1 = gender cow2)"
    by (auto simp add: generateOffspringCow_def Let_def)
  have child: "let father = (if gender cow1 = Some MALE then cow1 else cow2);
           mother = (if gender cow1 = Some MALE then cow2 else cow1);
           bloodline = [propertyKey (color father) \<mapsto> True] ++
                       [propertyKey (color mother) \<mapsto> True] ++
                       colorsInBloodline father ++ colorsInBloodline mother;
           weight = (baseWeight father + baseWeight mother) / 2;
           n3 = (if color father \<noteq> None \<and> color father \<noteq> Some []
                 then Suc (Suc n) else Suc (Suc (Suc n)))
       in generateOffspringCow k t rnd n cow1 cow2 =
            Inr (generateCow k t rnd n
                   (noOptions\<lparr>o_color := Some (color father),
                      o_colorsInBloodline := Some bloodline,
                      o_baseWeight := Some weight\<rparr>)) \<and>
          generateOffspringCow k t rnd n cow1 cow2 =
            Inr (\<lparr> baseWeight = weight, color = color father, colorsInBloodline = bloodline,
                    daysOld = 1, daysSinceMilking = 0,
                    gender = chooseRandom (genders_values t) (rnd n), happiness = 0,
                    happinessBoostsToday = 0, cow_id = createUniqueId t (rnd n3),
                    isUsingHuggingMachine = False,
                    name = chooseRandom (fruitNames t) (rnd (Suc n3)),
                    weightMultiplier = 1 \<rparr>, Suc (Suc n3))"
    if differ: "gender cow1 \<noteq> gender cow2"
  proof -
    define father where "father = (if gender cow1 = Some MALE then cow1 else cow2)"
    define mother where "mother = (if gender cow1 = Some MALE then cow2 else cow1)"
    define bloodline where "bloodline = [propertyKey (color father) \<mapsto> True] ++
        [propertyKey (color mother) \<mapsto> True] ++
        colorsInBloodline father ++ colorsInBloodline mother"
    define weight where "weight = (baseWeight father + baseWeight mother) / 2"
    define options where "options = noOptions\<lparr>o_color := Some (color father),
        o_colorsInBloodline := Some bloodline, o_baseWeight := Some weight\<rparr>"
    have call: "generateOffspringCow k t rnd n cow1 cow2 = Inr (generateCow k t rnd n options)"
      using differ
      by (simp add: generateOffspringCow_def Let_def options_def weight_def bloodline_def
            father_def mother_def)
    have made: "generateCow k t rnd n options =
       (let n3 = (if color father \<noteq> None \<and> color father \<noteq> Some []
                  then Suc (Suc n) else Suc (Suc (Suc n))) in
        (\<lparr> baseWeight = weight, color = color father, colorsInBloodline = bloodline,
           daysOld = 1, daysSinceMilking = 0,
           gender = chooseRandom (genders_values t) (rnd n), happiness = 0,
           happinessBoostsToday = 0, cow_id = createUniqueId t (rnd n3),
           isUsingHuggingMachine = False, name = chooseRandom (fruitNames t) (rnd (Suc n3)),
           weightMultiplier = 1 \<rparr>, Suc (Suc n3)))"
      by (rule generateCow_offspring) (simp_all add: options_def noOptions_def)
    show ?thesis
      using call made
      unfolding Let_def options_def weight_def bloodline_def father_def mother_def
      by simp
  qed
  show ?thesis
    using guard child by blast
qed

theorem generateOffspringCow_error_witness:
  "generateOffspringCow exampleConstants exampleTables samples 0 bull bull =
     Inl (SameGenderError bull bull) \<and>
   generateOffspringCow exampleConstants exampleTables samples 0 dairy dairy =
     Inl (SameGenderError dairy dairy) \<and>
   gender dairy \<noteq> gender bull \<and>
   generateOffspringCow exampleConstants exampleTables samples 0 dairy bull =
     Inr (\<lparr> baseWeight = 1900, color = Some ''BROWN'',
            colorsInBloodline = [''BROWN'' \<mapsto> True, ''WHITE'' \<mapsto> True] ++
              colorsInBloodline bull ++ colorsInBloodline dairy,
            daysOld = 1, daysSinceMilking = 0, gender = Some MALE, happiness = 0,
            happinessBoostsToday = 0, cow_id = ''MQ=='', isUsingHuggingMachine = False,
            name = Some ''Apple'', weightMultiplier = 1 \<rparr>, 4)"
proof -
  have g: "gender bull = Some MALE" "gender dairy = Some FEMALE"
    by (simp_all add: bull_def dairy_def)
  have differ: "gender dairy \<noteq> gender bull"
    by (simp add: g)
  note e = generateOffspringCow_error [of exampleConstants exampleTables samples 0]
  have same1: "generateOffspringCow exampleConstants exampleTables samples 0 bull bull =
     Inl (SameGenderError bull bull)"
    using e [of bull bull, THEN conjunct1] by simp
  have same2: "generateOffspringCow exampleConstants exampleTables samples 0 dairy dairy =
     Inl (SameGenderError dairy dairy)"
    using e [of dairy dairy, THEN conjunct1] by simp
  have colors: "color bull = Some ''BROWN''" "color dairy = Some ''WHITE''"
    "baseWeight bull = 2000" "baseWeight dairy = 1800"
    by (simp_all add: bull_def dairy_def)
  have draws: "chooseRandom (genders_values exampleTables) (samples 0) = Some MALE"
    "createUniqueId exampleTables (samples (Suc (Suc 0))) = ''MQ==''"
    "chooseRandom (fruitNames exampleTables) (samples (Suc (Suc (Suc 0)))) = Some ''Apple''"
    by (simp_all add: chooseRandom_def createUniqueId_def js_index_def exampleTables_def
          samples_def round_def)
  have child: "generateOffspringCow exampleConstants exampleTables samples 0 dairy bull =
     Inr (\<lparr> baseWeight = 1900, color = Some ''BROWN'',
            colorsInBloodline = [''BROWN'' \<mapsto> True, ''WHITE'' \<mapsto> True] ++
              colorsInBloodline bull ++ colorsInBloodline dairy,
            daysOld = 1, daysSinceMilking = 0, gender = Some MALE, happiness = 0,
            happinessBoostsToday = 0, cow_id = ''MQ=='', isUsingHuggingMachine = False,
            name = Some ''Apple'', weightMultiplier = 1 \<rparr>, 4)"
    using e [of dairy bull, THEN conjunct2, THEN conjunct2, rule_format, OF differ,
        unfolded Let_def, THEN conjunct2]
    by (simp add: g colors draws propertyKey_def)
  show ?thesis
    using same1 same2 differ child by blast
qed

text \<open>
  Claim C4. For a male cow \<open>m\<close> and a female cow \<open>f\<close>, \<open>generateOffspringCow\<close> succeeds in
  either argument order, with the same cow; its color is \<open>m.color\<close>, its
  \<open>colorsInBloodline\<close> is the object with the keys \<open>m.color\<close> and \<open>f.color\<close> and the
  entries of both parents' \<open>colorsInBloodline\<close>, so that its key set is the union of the
  parents' key sets, \<open>{m.color}\<close> and \<open>{f.color}\<close>, and its \<open>baseWeight\<close> is
  \<open>(m.baseWeight + f.baseWeight) / 2\<close>. (\<^const>\<open>propertyKey\<close> of a color that is a string
  is that string.)
\<close>

theorem generateOffspringCow_inherits:
  assumes m: "gender m = Some MALE" and f: "gender f = Some FEMALE"
  shows "\<exists>child n'.
           generateOffspringCow k t rnd n m f = Inr (child, n') \<and>
           generateOffspringCow k t rnd n f m = Inr (child, n') \<and>
           color child = color m \<and>
           colorsInBloodline child =
             [propertyKey (color m) \<mapsto> True] ++ [propertyKey (color f) \<mapsto> True] ++
             colorsInBloodline m ++ colorsInBloodline f \<and>
           dom (colorsInBloodline child) =
             dom (colorsInBloodline m) \<union> dom (colorsInBloodline f) \<union>
             {propertyKey (color m)} \<union> {propertyKey (color f)} \<and>
           (\<forall>cm cf. color m = Some cm \<and> color f = Some cf \<longrightarrow>
              dom (colorsInBloodline child) =
                dom (colorsInBloodline m) \<union> dom (colorsInBloodline f) \<union> {cm} \<union> {cf}) \<and>
           baseWeight child = (baseWeight m + baseWeight f) / 2"
proof -
  let ?options = "noOptions\<lparr>
      o_color := Some (color m),
      o_colorsInBloodline := Some
        ([propertyKey (color m) \<mapsto> True] ++ [propertyKey (color f) \<mapsto> True] ++
         colorsInBloodline m ++ colorsInBloodline f),
      o_baseWeight := Some ((baseWeight m + baseWeight f) / 2) \<rparr>"
  let ?child = "fst (generateCow k t rnd n ?options)"
  let ?n = "snd (generateCow k t rnd n ?options)"
  have mf: "generateOffspringCow k t rnd n m f = Inr (?child, ?n)"
    using m f by (simp add: generateOffspringCow_def)
  have fm: "generateOffspringCow k t rnd n f m = Inr (?child, ?n)"
    using m f by (simp add: generateOffspringCow_def)
  have options: "o_color ?options = Some (color m)"
    "o_colorsInBloodline ?options = Some
       ([propertyKey (color m) \<mapsto> True] ++ [propertyKey (color f) \<mapsto> True] ++
        colorsInBloodline m ++ colorsInBloodline f)"
    "o_baseWeight ?options = Some ((baseWeight m + baseWeight f) / 2)"
    by simp_all
  have c: "color ?child = color m"
    by (rule generateCow_given(1) [OF options])
  have b: "colorsInBloodline ?child =
      [propertyKey (color m) \<mapsto> True] ++ [propertyKey (color f) \<mapsto> True] ++
      colorsInBloodline m ++ colorsInBloodline f"
    by (rule generateCow_given(2) [OF options])
  have w: "baseWeight ?child = (baseWeight m + baseWeight f) / 2"
    by (rule generateCow_given(3) [OF options])
  have d: "dom (colorsInBloodline ?child) =
      dom (colorsInBloodline m) \<union> dom (colorsInBloodline f) \<union>
      {propertyKey (color m)} \<union> {propertyKey (color f)}"
    unfolding b by auto
  have d': "\<forall>cm cf. color m = Some cm \<and> color f = Some cf \<longrightarrow>
      dom (colorsInBloodline ?child) =
        dom (colorsInBloodline m) \<union> dom (colorsInBloodline f) \<union> {cm} \<union> {cf}"
    unfolding d by (simp add: propertyKey_def)
  from mf fm c b w d d' show ?thesis
    by blast
qed

theorem generateOffspringCow_inherits_witness:
  "gender bull = Some MALE \<and> gender dairy = Some FEMALE \<and>
   (\<exists>child n'.
      generateOffspringCow exampleConstants exampleTables samples 0 bull dairy =
        Inr (child, n') \<and>
      generateOffspringCow exampleConstants exampleTables samples 0 dairy bull =
        Inr (child, n') \<and>
      color child = Some ''BROWN'' \<and>
      dom (colorsInBloodline child) = {''BLUE'', ''BROWN'', ''WHITE''} \<and>
      baseWeight child = 1900)"
proof -
  have g: "gender bull = Some MALE" "gender dairy = Some FEMALE"
    by (simp_all add: bull_def dairy_def)
  obtain child n' where c:
    "generateOffspringCow exampleConstants exampleTables samples 0 bull dairy = Inr (child, n')"
    "generateOffspringCow exampleConstants exampleTables samples 0 dairy bull = Inr (child, n')"
    "color child = color bull"
    "dom (colorsInBloodline child) =
       dom (colorsInBloodline bull) \<union> dom (colorsInBloodline dairy) \<union>
       {propertyKey (color bull)} \<union> {propertyKey (color dairy)}"
    "baseWeight child = (baseWeight bull + baseWeight dairy) / 2"
    using generateOffspringCow_inherits [OF g, of exampleConstants exampleTables samples 0]
    by blast
  have "color child = Some ''BROWN''"
    using c(3) by (simp add: bull_def)
  moreover have "dom (colorsInBloodline child) = {''BLUE'', ''BROWN'', ''WHITE''}"
    unfolding c(4) by (auto simp add: bull_def dairy_def propertyKey_def)
  moreover have "baseWeight child = 1900"
    using c(5) by (simp add: bull_def dairy_def)
  ultimately show ?thesis
    using g c(1,2) by blast
qed

lemma scaleNumber_finite:
  "mx \<noteq> mn \<Longrightarrow>
   scaleNumber v mn mx baseMin baseMax = Num ((v - mn) * (baseMax - baseMin) / (mx - mn) + baseMin)"
  by (simp add: scaleNumber_def Let_def)

lemma cowValueMultiplier_finite:
  assumes "COW_MAXIMUM_AGE_VALUE_DROPOFF k \<noteq> 1"
  shows "cowValueMultiplier k c =
     Num (let line = (daysOld c - 1) *
                (COW_MINIMUM_VALUE_MULTIPLIER k - COW_MAXIMUM_VALUE_MULTIPLIER k) /
                (COW_MAXIMUM_AGE_VALUE_DROPOFF k - 1) + COW_MAXIMUM_VALUE_MULTIPLIER k
          in if line \<le> COW_MINIMUM_VALUE_MULTIPLIER k then COW_MINIMUM_VALUE_MULTIPLIER k
             else if line \<ge> COW_MAXIMUM_VALUE_MULTIPLIER k then COW_MAXIMUM_VALUE_MULTIPLIER k
             else line)"
  using assms by (simp add: cowValueMultiplier_def scaleNumber_finite clampNumber_def Let_def)

text \<open>
  Claim C5. With the constants \<open>1 < COW_MAXIMUM_AGE_VALUE_DROPOFF\<close> and
  \<open>COW_MINIMUM_VALUE_MULTIPLIER \<le> COW_MAXIMUM_VALUE_MULTIPLIER\<close>, \<open>getCowValue(cow)\<close> is
  \<open>getCowWeight(cow)\<close> times a factor that is \<open>COW_MAXIMUM_VALUE_MULTIPLIER\<close> at
  \<open>daysOld = 1\<close> (and below), \<open>COW_MINIMUM_VALUE_MULTIPLIER\<close> at
  \<open>daysOld \<ge> COW_MAXIMUM_AGE_VALUE_DROPOFF\<close>, falls linearly with \<open>daysOld\<close> between
  these ages, and always lies between the two multipliers; it is not negative when the
  minimum multiplier is not.
\<close>

theorem getCowValue_spec:
  assumes drop: "1 < COW_MAXIMUM_AGE_VALUE_DROPOFF k"
    and order: "COW_MINIMUM_VALUE_MULTIPLIER k \<le> COW_MAXIMUM_VALUE_MULTIPLIER k"
  shows "\<exists>factor.
           cowValueMultiplier k c = Num factor \<and>
           getCowValue k c = Num (getCowWeight c * factor) \<and>
           COW_MINIMUM_VALUE_MULTIPLIER k \<le> factor \<and>
           factor \<le> COW_MAXIMUM_VALUE_MULTIPLIER k \<and>
           (daysOld c = 1 \<longrightarrow> factor = COW_MAXIMUM_VALUE_MULTIPLIER k) \<and>
           (daysOld c < 1 \<longrightarrow> factor = COW_MAXIMUM_VALUE_MULTIPLIER k) \<and>
           (COW_MAXIMUM_AGE_VALUE_DROPOFF k \<le> daysOld c \<longrightarrow>
              factor = COW_MINIMUM_VALUE_MULTIPLIER k) \<and>
           (1 \<le> daysOld c \<and> daysOld c \<le> COW_MAXIMUM_AGE_VALUE_DROPOFF k \<longrightarrow>
              factor = COW_MAXIMUM_VALUE_MULTIPLIER k -
                (daysOld c - 1) *
                ((COW_MAXIMUM_VALUE_MULTIPLIER k - COW_MINIMUM_VALUE_MULTIPLIER k) /
                 (COW_MAXIMUM_AGE_VALUE_DROPOFF k - 1))) \<and>
           (0 \<le> COW_MINIMUM_VALUE_MULTIPLIER k \<longrightarrow> 0 \<le> factor)"
proof -
  define D where "D = COW_MAXIMUM_AGE_VALUE_DROPOFF k"
  define lo where "lo = COW_MINIMUM_VALUE_MULTIPLIER k"
  define hi where "hi = COW_MAXIMUM_VALUE_MULTIPLIER k"
  define d where "d = daysOld c"
  define line where "line = (d - 1) * (lo - hi) / (D - 1) + hi"
  define factor where
    "factor = (if line \<le> lo then lo else if line \<ge> hi then hi else line)"
  have D: "1 < D" and lohi: "lo \<le> hi"
    using drop order by (simp_all add: D_def lo_def hi_def)
  have m: "cowValueMultiplier k c = Num factor"
    using D cowValueMultiplier_finite [of k c]
    by (simp add: factor_def line_def D_def lo_def hi_def d_def Let_def)
  have v: "getCowValue k c = Num (getCowWeight c * factor)"
    by (simp add: getCowValue_def m)
  define slope where "slope = (hi - lo) / (D - 1)"
  have line_eq: "line = hi - (d - 1) * slope"
    using D by (simp add: line_def slope_def field_simps)
  have step: "0 \<le> slope"
    using D lohi by (simp add: slope_def)
  have line_lo: "lo = hi - (D - 1) * slope"
    using D by (simp add: slope_def)
  have bounds: "lo \<le> factor" "factor \<le> hi"
    using lohi by (auto simp add: factor_def)
  have young: "factor = hi" if "d \<le> 1"
  proof -
    have "(d - 1) * slope \<le> 0"
      by (rule mult_nonpos_nonneg) (use that step in simp_all)
    then have "hi \<le> line" by (simp add: line_eq)
    then show ?thesis using lohi by (auto simp add: factor_def)
  qed
  have old: "factor = lo" if "D \<le> d"
  proof -
    have "(D - 1) * slope \<le> (d - 1) * slope"
      by (rule mult_right_mono) (use that step in simp_all)
    then have "line \<le> lo" using line_lo line_eq by linarith
    then show ?thesis by (simp add: factor_def)
  qed
  have between: "factor = hi - (d - 1) * slope" if "1 \<le> d \<and> d \<le> D"
  proof -
    have a: "0 \<le> (d - 1) * slope"
      by (rule mult_nonneg_nonneg) (use that step in simp_all)
    have "(d - 1) * slope \<le> (D - 1) * slope"
      by (rule mult_right_mono) (use that step in simp_all)
    then have b: "lo \<le> line" using line_lo line_eq by linarith
    have c: "line \<le> hi" using a line_eq by linarith
    show ?thesis
      using b c line_eq by (auto simp add: factor_def)
  qed
  have nonneg: "0 \<le> factor" if "0 \<le> lo"
    using that bounds by simp
  have young1: "factor = hi" if "d = 1"
    using that young by simp
  have young2: "factor = hi" if "d < 1"
    using that young by simp
  show ?thesis
    using m v bounds young1 young2 old between nonneg
    unfolding slope_def D_def lo_def hi_def d_def by blast
qed

theorem getCowValue_spec_witness:
  "1 < COW_MAXIMUM_AGE_VALUE_DROPOFF exampleConstants \<and>
   COW_MINIMUM_VALUE_MULTIPLIER exampleConstants \<le> COW_MAXIMUM_VALUE_MULTIPLIER exampleConstants \<and>
   daysOld bull = 1 \<and> getCowValue exampleConstants bull = Num 10000 \<and>
   daysOld dairy = 913 \<and> getCowValue exampleConstants dairy = Num 4950 \<and>
   getCowValue exampleConstants (dairy\<lparr>daysOld := 2000\<rparr>) = Num 900"
proof -
  have k: "1 < COW_MAXIMUM_AGE_VALUE_DROPOFF exampleConstants"
    "COW_MINIMUM_VALUE_MULTIPLIER exampleConstants \<le> COW_MAXIMUM_VALUE_MULTIPLIER exampleConstants"
    by (simp_all add: exampleConstants_def)
  have w: "getCowWeight bull = 2000" "getCowWeight dairy = 1800"
    "getCowWeight (dairy\<lparr>daysOld := 2000\<rparr>) = 1800"
    by (simp_all add: getCowWeight_def bull_def dairy_def)
  have "getCowValue exampleConstants bull = Num 10000"
    using getCowValue_spec [OF k, of bull] w
    by (auto simp add: bull_def exampleConstants_def)
  moreover have "getCowValue exampleConstants dairy = Num 4950"
    using getCowValue_spec [OF k, of dairy] w
    by (auto simp add: dairy_def exampleConstants_def)
  moreover have "getCowValue exampleConstants (dairy\<lparr>daysOld := 2000\<rparr>) = Num 900"
    using getCowValue_spec [OF k, of "dairy\<lparr>daysOld := 2000\<rparr>"] w
    by (auto simp add: exampleConstants_def)
  ultimately show ?thesis
    using k by (simp add: bull_def dairy_def)
qed

text \<open>
  Claim C6, as amended. With \<open>COW_WEIGHT_MULTIPLIER_MINIMUM \<noteq> COW_WEIGHT_MULTIPLIER_MAXIMUM\<close>,
  \<open>getCowMilkRate\<close> of a female cow is the number obtained by mapping its
  \<open>weightMultiplier\<close> linearly from the band of weight multipliers onto the band from
  \<open>COW_MILK_RATE_SLOWEST\<close> to \<open>COW_MILK_RATE_FASTEST\<close> (the minimum multiplier gives the
  slowest rate, the maximum the fastest); of every other cow, so of every male cow, it is
  the number \<open>Infinity\<close>.
\<close>

theorem getCowMilkRate_spec:
  assumes band: "COW_WEIGHT_MULTIPLIER_MINIMUM k \<noteq> COW_WEIGHT_MULTIPLIER_MAXIMUM k"
  shows "(gender c = Some FEMALE \<longrightarrow>
            getCowMilkRate k c =
              Num (COW_MILK_RATE_SLOWEST k +
                   (weightMultiplier c - COW_WEIGHT_MULTIPLIER_MINIMUM k) *
                   ((COW_MILK_RATE_FASTEST k - COW_MILK_RATE_SLOWEST k) /
                    (COW_WEIGHT_MULTIPLIER_MAXIMUM k - COW_WEIGHT_MULTIPLIER_MINIMUM k)))) \<and>
         (gender c = Some FEMALE \<and> weightMultiplier c = COW_WEIGHT_MULTIPLIER_MINIMUM k \<longrightarrow>
            getCowMilkRate k c = Num (COW_MILK_RATE_SLOWEST k)) \<and>
         (gender c = Some FEMALE \<and> weightMultiplier c = COW_WEIGHT_MULTIPLIER_MAXIMUM k \<longrightarrow>
            getCowMilkRate k c = Num (COW_MILK_RATE_FASTEST k)) \<and>
         (gender c = Some MALE \<longrightarrow> getCowMilkRate k c = Infinity) \<and>
         (gender c \<noteq> Some FEMALE \<longrightarrow> getCowMilkRate k c = Infinity)"
proof -
  have ne: "COW_WEIGHT_MULTIPLIER_MAXIMUM k \<noteq> COW_WEIGHT_MULTIPLIER_MINIMUM k"
    using band by simp
  have female: "getCowMilkRate k c =
      Num (COW_MILK_RATE_SLOWEST k +
           (weightMultiplier c - COW_WEIGHT_MULTIPLIER_MINIMUM k) *
           ((COW_MILK_RATE_FASTEST k - COW_MILK_RATE_SLOWEST k) /
            (COW_WEIGHT_MULTIPLIER_MAXIMUM k - COW_WEIGHT_MULTIPLIER_MINIMUM k)))"
    if "gender c = Some FEMALE"
    using that by (simp add: getCowMilkRate_def scaleNumber_finite [OF ne])
  have slowest: "getCowMilkRate k c = Num (COW_MILK_RATE_SLOWEST k)"
    if "gender c = Some FEMALE \<and> weightMultiplier c = COW_WEIGHT_MULTIPLIER_MINIMUM k"
    using that female by simp
  have fastest: "getCowMilkRate k c = Num (COW_MILK_RATE_FASTEST k)"
    if "gender c = Some FEMALE \<and> weightMultiplier c = COW_WEIGHT_MULTIPLIER_MAXIMUM k"
    using that female ne by simp
  have other: "getCowMilkRate k c = Infinity" if "gender c \<noteq> Some FEMALE"
    using that by (simp add: getCowMilkRate_def)
  have male: "getCowMilkRate k c = Infinity" if "gender c = Some MALE"
    using that other by simp
  show ?thesis
    using female slowest fastest male other by blast
qed

theorem getCowMilkRate_spec_witness:
  "COW_WEIGHT_MULTIPLIER_MINIMUM exampleConstants \<noteq>
     COW_WEIGHT_MULTIPLIER_MAXIMUM exampleConstants \<and>
   gender dairy = Some FEMALE \<and>
   getCowMilkRate exampleConstants dairy = Num 2 \<and>
   getCowMilkRate exampleConstants (dairy\<lparr>weightMultiplier := 1 / 2\<rparr>) = Num 3 \<and>
   getCowMilkRate exampleConstants (dairy\<lparr>weightMultiplier := 3 / 2\<rparr>) = Num 1 \<and>
   getCowMilkRate exampleConstants (dairy\<lparr>gender := Some MALE\<rparr>) = Infinity"
proof -
  have k: "COW_WEIGHT_MULTIPLIER_MINIMUM exampleConstants \<noteq>
     COW_WEIGHT_MULTIPLIER_MAXIMUM exampleConstants"
    by (simp add: exampleConstants_def)
  have g: "gender dairy = Some FEMALE"
    by (simp add: dairy_def)
  have "getCowMilkRate exampleConstants dairy = Num 2"
    using getCowMilkRate_spec [OF k, of dairy, THEN conjunct1] g
    by (simp add: dairy_def exampleConstants_def)
  moreover have "getCowMilkRate exampleConstants (dairy\<lparr>weightMultiplier := 1 / 2\<rparr>) = Num 3"
    using getCowMilkRate_spec [OF k, of "dairy\<lparr>weightMultiplier := 1 / 2\<rparr>",
        THEN conjunct2, THEN conjunct1] g
    by (simp add: exampleConstants_def)
  moreover have "getCowMilkRate exampleConstants (dairy\<lparr>weightMultiplier := 3 / 2\<rparr>) = Num 1"
    using getCowMilkRate_spec [OF k, of "dairy\<lparr>weightMultiplier := 3 / 2\<rparr>",
        THEN conjunct2, THEN conjunct2, THEN conjunct1] g
    by (simp add: exampleConstants_def)
  moreover have "getCowMilkRate exampleConstants (dairy\<lparr>gender := Some MALE\<rparr>) = Infinity"
    using getCowMilkRate_spec [OF k, of "dairy\<lparr>gender := Some MALE\<rparr>",
        THEN conjunct2, THEN conjunct2, THEN conjunct2, THEN conjunct1]
    by simp
  ultimately show ?thesis
    using k g by simp
qed

text \<open>
  The claim as stated fails: for a male cow the result is not an explicit \<open>not applicable\<close>
  result but the number \<open>Infinity\<close>, which compares greater than every finite number.
\<close>

theorem getCowMilkRate_male_counterexample:
  "gender bull = Some MALE \<and> getCowMilkRate exampleConstants bull = Infinity \<and>
   num_gt (getCowMilkRate exampleConstants bull) 1000000"
  by (simp add: getCowMilkRate_def bull_def)

section \<open>Inventory space\<close>

lemma foldl_quantity:
  "foldl (\<lambda>sum e. sum + quantity e) a xs = a + sum_list (map quantity xs)"
  by (induction xs arbitrary: a) simp_all

lemma inventorySpaceConsumed_sum:
  "inventorySpaceConsumed xs = sum_list (map quantity xs)"
  by (simp add: inventorySpaceConsumed_def foldl_quantity)

text \<open>
  Claim C9. \<open>inventorySpaceRemaining\<close> returns \<open>Infinity\<close>, which exceeds every finite
  number, whenever \<open>inventoryLimit\<close> is \<open>-1\<close>, whatever the inventory holds; otherwise it
  returns \<open>inventoryLimit\<close> minus the sum of the quantities of all entries (which is what
  \<open>inventorySpaceConsumed\<close> returns); \<open>doesInventorySpaceRemain\<close> is true exactly when the
  remaining space is greater than zero.
\<close>

theorem inventorySpaceRemaining_spec:
  "(inventoryLimit s = - 1 \<longrightarrow>
      inventorySpaceRemaining s = Infinity \<and> (\<forall>x. num_gt (inventorySpaceRemaining s) x)) \<and>
   (inventoryLimit s \<noteq> - 1 \<longrightarrow>
      inventorySpaceRemaining s =
        Num (inventoryLimit s - sum_list (map quantity (inventory s)))) \<and>
   inventorySpaceConsumed (inventory s) = sum_list (map quantity (inventory s)) \<and>
   doesInventorySpaceRemain s = num_gt (inventorySpaceRemaining s) 0 \<and>
   doesInventorySpaceRemain s =
     (inventoryLimit s = - 1 \<or> 0 < inventoryLimit s - sum_list (map quantity (inventory s)))"
  by (simp add: inventorySpaceRemaining_def doesInventorySpaceRemain_def
        inventorySpaceConsumed_sum)

theorem inventorySpaceRemaining_spec_witness:
  "inventoryLimit (exampleState\<lparr>inventoryLimit := - 1\<rparr>) = - 1 \<and>
   inventorySpaceRemaining (exampleState\<lparr>inventoryLimit := - 1\<rparr>) = Infinity \<and>
   doesInventorySpaceRemain (exampleState\<lparr>inventoryLimit := - 1\<rparr>) \<and>
   inventoryLimit exampleState \<noteq> - 1 \<and>
   inventorySpaceRemaining exampleState = Num 3 \<and>
   doesInventorySpaceRemain exampleState \<and>
   inventorySpaceRemaining (exampleState\<lparr>inventoryLimit := 7\<rparr>) = Num 0 \<and>
   \<not> doesInventorySpaceRemain (exampleState\<lparr>inventoryLimit := 7\<rparr>)"
  using inventorySpaceRemaining_spec [of "exampleState\<lparr>inventoryLimit := - 1\<rparr>"]
    inventorySpaceRemaining_spec [of exampleState]
    inventorySpaceRemaining_spec [of "exampleState\<lparr>inventoryLimit := 7\<rparr>"]
  by (simp add: exampleState_def)

section \<open>Purchases\<close>

lemma findIndex_range: "findIndex P xs = - 1 \<or> (0 \<le> findIndex P xs \<and> findIndex P xs < int (length xs))"
  by (induction xs) (auto simp add: Let_def)

lemma findIndex_none: "(findIndex P xs = - 1) = (\<forall>x \<in> set xs. \<not> P x)"
proof (induction xs)
  case Nil
  show ?case by simp
next
  case (Cons x xs)
  then show ?case
    using findIndex_range [of P xs] by (auto simp add: Let_def)
qed

lemma findIndex_find:
  "find P xs = (if findIndex P xs = - 1 then None else Some (xs ! nat (findIndex P xs)))"
proof (induction xs)
  case Nil
  show ?case by simp
next
  case (Cons x xs)
  then show ?case
    using findIndex_range [of P xs] by (auto simp add: Let_def nat_add_distrib)
qed

lemma find_update_first:
  assumes "findIndex P xs \<noteq> - 1" and "P y"
  shows "find P (xs[nat (findIndex P xs) := y]) = Some y"
  using assms
proof (induction xs)
  case Nil
  then show ?case by simp
next
  case (Cons x xs)
  then show ?case
    using findIndex_range [of P xs] by (auto simp add: Let_def nat_add_distrib)
qed

lemma find_update_other:
  assumes "i < length xs" and "\<not> Q (xs ! i)" and "\<not> Q y"
  shows "find Q (xs[i := y]) = find Q xs"
  using assms
proof (induction xs arbitrary: i)
  case Nil
  then show ?case by simp
next
  case (Cons x xs)
  then show ?case by (cases i) auto
qed

lemma find_append_miss: "\<forall>x \<in> set xs. \<not> P x \<Longrightarrow> find P (xs @ ys) = find P ys"
  by (induction xs) auto

lemma find_append_other: "\<not> Q y \<Longrightarrow> find Q (xs @ [y]) = find Q xs"
  by (induction xs) auto

lemma NOT_int_zero: "(NOT (i::int) \<noteq> 0) = (i \<noteq> - 1)"
  by (simp add: not_int_def)

lemma handleItemPurchase_refused:
  "valueOrZero it > money st \<Longrightarrow> handleItemPurchase st it = st"
  by (simp add: handleItemPurchase_def Let_def)

lemma handleItemPurchase_new:
  assumes "valueOrZero it \<le> money st" and "item_id it \<notin> entry_id ` set (inventory st)"
  shows "handleItemPurchase st it =
     st\<lparr>inventory := inventory st @ [\<lparr>entry_id = item_id it, quantity = 1\<rparr>],
        money := money st - valueOrZero it\<rparr>"
proof -
  have "findIndex (\<lambda>e. item_id it = entry_id e) (inventory st) = - 1"
    using assms(2) by (auto simp add: findIndex_none)
  then show ?thesis
    using assms(1) by (simp add: handleItemPurchase_def Let_def NOT_int_zero)
qed

lemma handleItemPurchase_held:
  assumes "valueOrZero it \<le> money st" and "item_id it \<in> entry_id ` set (inventory st)"
  defines "i \<equiv> nat (findIndex (\<lambda>e. item_id it = entry_id e) (inventory st))"
  shows "handleItemPurchase st it =
     st\<lparr>inventory := (inventory st)
           [i := (inventory st ! i)\<lparr>quantity := quantity (inventory st ! i) + 1\<rparr>],
        money := money st - valueOrZero it\<rparr>"
proof -
  have "findIndex (\<lambda>e. item_id it = entry_id e) (inventory st) \<noteq> - 1"
    using assms(2) by (auto simp add: findIndex_none)
  then show ?thesis
    using assms(1) by (simp add: handleItemPurchase_def Let_def NOT_int_zero i_def)
qed


text \<open>
  Claim C10. \<open>handleItemPurchase\<close> is all or nothing. When the value of the item (0 when
  the item has none) exceeds \<open>state.money\<close>, the state is returned as it is: inventory and
  money are unchanged. Otherwise money decreases by exactly the value, so it does not become
  negative; the quantity held of the item increases by exactly 1, that of every other item is
  unchanged; when the inventory had no entry for the item, the entry \<open>{ id, quantity: 1 }\<close>
  is appended, and when it had one no entry is added or removed.
\<close>

theorem handleItemPurchase_spec:
  "(valueOrZero it > money st \<longrightarrow> handleItemPurchase st it = st) \<and>
   (valueOrZero it \<le> money st \<longrightarrow>
      money (handleItemPurchase st it) = money st - valueOrZero it \<and>
      0 \<le> money (handleItemPurchase st it) \<and>
      quantityOf (item_id it) (inventory (handleItemPurchase st it)) =
        quantityOf (item_id it) (inventory st) + 1 \<and>
      (\<forall>other. other \<noteq> item_id it \<longrightarrow>
         quantityOf other (inventory (handleItemPurchase st it)) =
           quantityOf other (inventory st)) \<and>
      (item_id it \<notin> entry_id ` set (inventory st) \<longrightarrow>
         inventory (handleItemPurchase st it) =
           inventory st @ [\<lparr>entry_id = item_id it, quantity = 1\<rparr>]) \<and>
      (item_id it \<in> entry_id ` set (inventory st) \<longrightarrow>
         map entry_id (inventory (handleItemPurchase st it)) = map entry_id (inventory st)) \<and>
      field (handleItemPurchase st it) = field st \<and>
      inventoryLimit (handleItemPurchase st it) = inventoryLimit st)"
proof (intro conjI impI)
  assume "valueOrZero it > money st"
  then show "handleItemPurchase st it = st"
    by (rule handleItemPurchase_refused)
next
  assume afford: "valueOrZero it \<le> money st"
  let ?P = "\<lambda>e. item_id it = entry_id e"
  let ?inv = "inventory st"
  let ?i = "nat (findIndex ?P ?inv)"
  let ?e = "(?inv ! ?i)\<lparr>quantity := quantity (?inv ! ?i) + 1\<rparr>"
  note new = handleItemPurchase_new [OF afford]
  note held = handleItemPurchase_held [OF afford]
  have idx: "?i < length ?inv \<and> ?P (?inv ! ?i) \<and> findIndex ?P ?inv \<noteq> - 1"
    if "item_id it \<in> entry_id ` set ?inv"
  proof -
    have ne: "findIndex ?P ?inv \<noteq> - 1"
      using that by (auto simp add: findIndex_none)
    then have "find ?P ?inv = Some (?inv ! ?i)"
      by (simp add: findIndex_find)
    then have "?P (?inv ! ?i)"
      by (auto simp add: find_Some_iff)
    moreover have "?i < length ?inv"
      using ne findIndex_range [of ?P ?inv] by auto
    ultimately show ?thesis using ne by blast
  qed
  have frame: "money (handleItemPurchase st it) = money st - valueOrZero it \<and>
      field (handleItemPurchase st it) = field st \<and>
      inventoryLimit (handleItemPurchase st it) = inventoryLimit st"
  proof (cases "item_id it \<in> entry_id ` set ?inv")
    case True
    show ?thesis by (simp add: held [OF True])
  next
    case False
    show ?thesis by (simp add: new [OF False])
  qed
  show "money (handleItemPurchase st it) = money st - valueOrZero it"
    using frame by simp
  then show "0 \<le> money (handleItemPurchase st it)"
    using afford by simp
  show "quantityOf (item_id it) (inventory (handleItemPurchase st it)) =
        quantityOf (item_id it) (inventory st) + 1"
  proof (cases "item_id it \<in> entry_id ` set ?inv")
    case True
    have "find ?P (?inv[?i := ?e]) = Some ?e"
      using idx [OF True] by (intro find_update_first) simp_all
    moreover have "find ?P ?inv = Some (?inv ! ?i)"
      using idx [OF True] by (simp add: findIndex_find)
    ultimately show ?thesis
      by (simp add: held [OF True] quantityOf_def)
  next
    case False
    then have none: "\<forall>x \<in> set ?inv. \<not> ?P x"
      by auto
    then have "find ?P ?inv = None"
      by (simp add: find_None_iff)
    then show ?thesis
      by (simp add: new [OF False] quantityOf_def find_append_miss [OF none])
  qed
  show "\<forall>other. other \<noteq> item_id it \<longrightarrow>
         quantityOf other (inventory (handleItemPurchase st it)) =
           quantityOf other (inventory st)"
  proof (intro allI impI)
    fix other assume other: "other \<noteq> item_id it"
    show "quantityOf other (inventory (handleItemPurchase st it)) =
           quantityOf other (inventory st)"
    proof (cases "item_id it \<in> entry_id ` set ?inv")
      case True
      have "find (\<lambda>e. other = entry_id e) (?inv[?i := ?e]) = find (\<lambda>e. other = entry_id e) ?inv"
        using idx [OF True] other by (intro find_update_other) simp_all
      then show ?thesis
        by (simp add: held [OF True] quantityOf_def)
    next
      case False
      have "find (\<lambda>e. other = entry_id e) (?inv @ [\<lparr>entry_id = item_id it, quantity = 1\<rparr>]) =
          find (\<lambda>e. other = entry_id e) ?inv"
        using other by (intro find_append_other) simp
      then show ?thesis
        by (simp add: new [OF False] quantityOf_def)
    qed
  qed
  show "inventory (handleItemPurchase st it) =
           inventory st @ [\<lparr>entry_id = item_id it, quantity = 1\<rparr>]"
    if "item_id it \<notin> entry_id ` set (inventory st)"
    using new [OF that] by simp
  show "map entry_id (inventory (handleItemPurchase st it)) = map entry_id (inventory st)"
    if "item_id it \<in> entry_id ` set (inventory st)"
    using idx [OF that] by (simp add: held [OF that] map_update list_update_same_conv)
  show "field (handleItemPurchase st it) = field st"
    using frame by simp
  show "inventoryLimit (handleItemPurchase st it) = inventoryLimit st"
    using frame by simp
qed

theorem handleItemPurchase_spec_witness:
  "valueOrZero scarecrow > money exampleState \<and>
   handleItemPurchase exampleState scarecrow = exampleState \<and>
   valueOrZero carrot \<le> money exampleState \<and>
   item_id carrot \<in> entry_id ` set (inventory exampleState) \<and>
   money (handleItemPurchase exampleState carrot) = 75 \<and>
   quantityOf ''carrot'' (inventory (handleItemPurchase exampleState carrot)) = 4 \<and>
   quantityOf ''pumpkin'' (inventory (handleItemPurchase exampleState carrot)) = 4 \<and>
   inventory (handleItemPurchase exampleState carrot) =
     [\<lparr>entry_id = ''carrot'', quantity = 4\<rparr>, \<lparr>entry_id = ''pumpkin'', quantity = 4\<rparr>] \<and>
   valueOrZero spinach \<le> money exampleState \<and>
   item_id spinach \<notin> entry_id ` set (inventory exampleState) \<and>
   money (handleItemPurchase exampleState spinach) = 88 \<and>
   inventory (handleItemPurchase exampleState spinach) =
     [\<lparr>entry_id = ''carrot'', quantity = 3\<rparr>, \<lparr>entry_id = ''pumpkin'', quantity = 4\<rparr>,
      \<lparr>entry_id = ''spinach'', quantity = 1\<rparr>]"
proof -
  have refused: "valueOrZero scarecrow > money exampleState"
    by (simp add: valueOrZero_def scarecrow_def exampleState_def)
  have c: "valueOrZero carrot \<le> money exampleState"
    "item_id carrot \<in> entry_id ` set (inventory exampleState)"
    by (simp_all add: valueOrZero_def carrot_def exampleState_def)
  have s: "valueOrZero spinach \<le> money exampleState"
    "item_id spinach \<notin> entry_id ` set (inventory exampleState)"
    by (simp_all add: valueOrZero_def spinach_def exampleState_def)
  have q: "quantityOf ''carrot'' (inventory exampleState) = 3"
    "quantityOf ''pumpkin'' (inventory exampleState) = 4"
    by (simp_all add: quantityOf_def exampleState_def)
  have r1: "handleItemPurchase exampleState scarecrow = exampleState"
    using handleItemPurchase_spec [where it = scarecrow and st = exampleState] refused by simp
  note pc = handleItemPurchase_spec [where it = carrot and st = exampleState, THEN conjunct2, rule_format, OF c(1)]
  have c1: "money (handleItemPurchase exampleState carrot) = 75"
    using pc by (simp add: valueOrZero_def carrot_def exampleState_def)
  have c2: "quantityOf ''carrot'' (inventory (handleItemPurchase exampleState carrot)) = 4"
    using pc q by (simp add: carrot_def)
  have c3: "quantityOf ''pumpkin'' (inventory (handleItemPurchase exampleState carrot)) = 4"
    using pc q by (simp add: carrot_def)
  have c4: "inventory (handleItemPurchase exampleState carrot) =
     [\<lparr>entry_id = ''carrot'', quantity = 4\<rparr>, \<lparr>entry_id = ''pumpkin'', quantity = 4\<rparr>]"
    by (simp add: handleItemPurchase_def valueOrZero_def carrot_def exampleState_def Let_def)
  note ps = handleItemPurchase_spec [where it = spinach and st = exampleState, THEN conjunct2, rule_format, OF s(1)]
  have s1: "money (handleItemPurchase exampleState spinach) = 88"
    using ps by (simp add: valueOrZero_def spinach_def exampleState_def)
  have s2: "inventory (handleItemPurchase exampleState spinach) =
     [\<lparr>entry_id = ''carrot'', quantity = 3\<rparr>, \<lparr>entry_id = ''pumpkin'', quantity = 4\<rparr>,
      \<lparr>entry_id = ''spinach'', quantity = 1\<rparr>]"
    using ps s(2) by (simp add: spinach_def exampleState_def)
  show ?thesis
    using refused r1 c c1 c2 c3 c4 s s1 s2 by blast
qed

section \<open>\<open>forRange\<close>\<close>

lemma forRange_x_fold:
  "forRange_x fieldFn args endX y x st = fold (\<lambda>cx s. fieldFn s cx y args) [x..endX] st"
proof (induction fieldFn args endX y x st rule: forRange_x.induct)
  case (1 fieldFn args endX y x st)
  show ?case
  proof (cases "x \<le> endX")
    case True
    then have "[x..endX] = x # [x + 1..endX]"
      by (simp add: upto_rec1)
    have "forRange_x fieldFn args endX y x st =
        forRange_x fieldFn args endX y (x + 1) (fieldFn st x y args)"
      using True by (subst forRange_x.simps) simp
    also have "\<dots> = fold (\<lambda>cx s. fieldFn s cx y args) [x + 1..endX] (fieldFn st x y args)"
      using True by (rule 1)
    finally show ?thesis
      by (simp add: \<open>[x..endX] = x # [x + 1..endX]\<close>)
  next
    case False
    have "forRange_x fieldFn args endX y x st = st"
      using False by (subst forRange_x.simps) simp
    then show ?thesis
      using False by simp
  qed
qed

lemma forRange_y_fold:
  "forRange_y fieldFn args startX endX endY y st =
     fold (\<lambda>cy s. fold (\<lambda>cx s. fieldFn s cx cy args) [startX..endX] s) [y..endY] st"
proof (induction fieldFn args startX endX endY y st rule: forRange_y.induct)
  case (1 fieldFn args startX endX endY y st)
  show ?case
  proof (cases "y \<le> endY")
    case True
    then have "[y..endY] = y # [y + 1..endY]"
      by (simp add: upto_rec1)
    have "forRange_y fieldFn args startX endX endY y st =
        forRange_y fieldFn args startX endX endY (y + 1)
          (forRange_x fieldFn args endX y startX st)"
      using True by (subst forRange_y.simps) simp
    also have "\<dots> = fold (\<lambda>cy s. fold (\<lambda>cx s. fieldFn s cx cy args) [startX..endX] s)
        [y + 1..endY] (forRange_x fieldFn args endX y startX st)"
      using True by (rule 1)
    finally show ?thesis
      by (simp add: \<open>[y..endY] = y # [y + 1..endY]\<close> forRange_x_fold)
  next
    case False
    have "forRange_y fieldFn args startX endX endY y st = st"
      using False by (subst forRange_y.simps) simp
    then show ?thesis
      using False by simp
  qed
qed

lemma fold_cells:
  "fold g (concat (map (\<lambda>cy. map (\<lambda>cx. (cx, cy)) xs) ys)) st =
     fold (\<lambda>cy s. fold (\<lambda>cx s. g (cx, cy) s) xs s) ys st"
  by (induction ys arbitrary: st) (simp_all add: fold_map comp_def)


lemma filter_upto:
  "filter (\<lambda>i. a \<le> i \<and> i \<le> b) [lo..hi] = [max a lo..min b hi]"
proof (rule sorted_distinct_set_unique)
  show "sorted (filter (\<lambda>i. a \<le> i \<and> i \<le> b) [lo..hi])"
    by (rule sorted_wrt_filter) simp
  show "distinct (filter (\<lambda>i. a \<le> i \<and> i \<le> b) [lo..hi])"
    by simp
  show "sorted [max a lo..min b hi]" by simp
  show "distinct [max a lo..min b hi]" by simp
  show "set (filter (\<lambda>i. a \<le> i \<and> i \<le> b) [lo..hi]) = set [max a lo..min b hi]"
    by auto
qed

lemma filter_square: "filter (\<lambda>c. \<bar>c - x\<bar> \<le> r) [0..n] = [max (x - r) 0..min (x + r) n]"
proof -
  have "(\<lambda>c. \<bar>c - x\<bar> \<le> r) = (\<lambda>c. x - r \<le> c \<and> c \<le> x + r)"
    by (rule ext) linarith
  then show ?thesis
    by (simp add: filter_upto)
qed

lemma squareCells_clipped:
  "squareCells width height r x y =
     concat (map (\<lambda>cy. map (\<lambda>cx. (cx, cy)) [max (x - r) 0..min (x + r) (int width - 1)])
                 [max (y - r) 0..min (y + r) (int height - 1)])"
  by (simp add: squareCells_def filter_square)

lemma set_squareCells:
  "set (squareCells width height r x y) =
     {(cx, cy). 0 \<le> cx \<and> cx < int width \<and> 0 \<le> cy \<and> cy < int height \<and>
                \<bar>cx - x\<bar> \<le> r \<and> \<bar>cy - y\<bar> \<le> r}"
  by (auto simp add: squareCells_def)

lemma rowMajor_cells:
  assumes "sorted_wrt (<) xs" and "sorted_wrt (<) ys"
  shows "sorted_wrt (\<lambda>(x1, y1) (x2, y2). y1 < y2 \<or> (y1 = y2 \<and> x1 < x2))
           (concat (map (\<lambda>cy. map (\<lambda>cx. (cx, cy :: int)) xs) ys))"
  using assms(2)
proof (induction ys)
  case Nil
  show ?case by simp
next
  case (Cons cy ys)
  then show ?case
    using assms(1) by (auto simp add: sorted_wrt_append sorted_wrt_map)
qed

lemma strict_sorted_upto: "sorted_wrt (<) [i..j :: int]"
  using sorted_upto distinct_upto strict_sorted_iff by blast

lemma rowMajor_squareCells:
  "sorted_wrt (\<lambda>(x1, y1) (x2, y2). y1 < y2 \<or> (y1 = y2 \<and> x1 < x2))
     (squareCells width height r x y)"
  unfolding squareCells_clipped by (rule rowMajor_cells) (rule strict_sorted_upto)+

lemma sorted_wrt_irrefl_distinct:
  assumes "sorted_wrt R xs" and "\<And>x. \<not> R x x"
  shows "distinct xs"
  using assms(1)
proof (induction xs)
  case Nil
  show ?case by simp
next
  case (Cons x xs)
  then show ?case
    using assms(2) by auto
qed

lemma distinct_squareCells: "distinct (squareCells width height r x y)"
  by (rule sorted_wrt_irrefl_distinct [OF rowMajor_squareCells]) auto

lemma cells22: "squareCells 5 5 1 2 2 =
  [(1,1),(2,1),(3,1),(1,2),(2,2),(3,2),(1,3),(2,3),(3,3)]"
  by code_simp

lemma cells00: "squareCells 5 5 1 0 0 = [(0,0),(1,0),(0,1),(1,1)]"
  by code_simp

lemma cells55: "squareCells 5 5 1 5 5 = [(4,4)]"
  by code_simp

lemma cells77: "squareCells 5 5 1 7 7 = []"
  by code_simp

lemma traceField: "field traceState = replicate 5 None # replicate 4 (replicate 5 None)"
  by (simp add: traceState_def numeral_eq_Suc)

lemma forRange_fold:
  assumes rows: "field st = row0 # rows"
  shows "forRange st fieldFn r x y args =
           Inr (fold (\<lambda>(cx, cy) s. fieldFn s cx cy args)
                  (squareCells (length row0) (length (field st)) r x y) st)"
proof -
  have "forRange st fieldFn r x y args =
      Inr (forRange_y fieldFn args (max (x - r) 0) (min (x + r) (int (length row0) - 1))
             (min (y + r) (int (length (field st)) - 1)) (max (y - r) 0) st)"
    using rows by (simp add: forRange_def Let_def)
  then show ?thesis
    by (simp only: forRange_y_fold squareCells_clipped fold_cells prod.case)
qed

lemma squareCells_outside:
  assumes "x + r < 0 \<or> int width \<le> x - r \<or> y + r < 0 \<or> int height \<le> y - r"
  shows "squareCells width height r x y = []"
proof -
  have "set (squareCells width height r x y) = {}"
    using assms unfolding set_squareCells by auto
  then show ?thesis by simp
qed

text \<open>
  Claim C7, as amended. For a state whose field has at least one row (its width that of
  the first row, as in a rectangular grid), \<open>forRange(state, cellFn, radius, x, y, ...args)\<close>
  is the left-to-right fold of \<open>cellFn\<close>, each result being the state of the next call, over
  the cells of the \<open>(2 * radius + 1)\<close> by \<open>(2 * radius + 1)\<close> square centered at \<open>(x, y)\<close>
  that lie within the field, each exactly once, in row-major order. When the square lies
  entirely outside the field no cell is visited and the state is returned unchanged, without
  error. A center outside the field whose square still meets the field visits the cells
  where they meet. The theorem after this one has the counts 9, 4 and 0 on a 5 by 5 field.
\<close>

theorem forRange_spec:
  assumes rows: "field st = row0 # rows"
  shows "forRange st fieldFn r x y args =
           Inr (fold (\<lambda>(cx, cy) s. fieldFn s cx cy args)
                  (squareCells (length row0) (length (field st)) r x y) st) \<and>
         distinct (squareCells (length row0) (length (field st)) r x y) \<and>
         set (squareCells (length row0) (length (field st)) r x y) =
           {(cx, cy). 0 \<le> cx \<and> cx < int (length row0) \<and>
                      0 \<le> cy \<and> cy < int (length (field st)) \<and>
                      \<bar>cx - x\<bar> \<le> r \<and> \<bar>cy - y\<bar> \<le> r} \<and>
         sorted_wrt (\<lambda>(x1, y1) (x2, y2). y1 < y2 \<or> (y1 = y2 \<and> x1 < x2))
           (squareCells (length row0) (length (field st)) r x y) \<and>
         (x + r < 0 \<or> int (length row0) \<le> x - r \<or>
          y + r < 0 \<or> int (length (field st)) \<le> y - r \<longrightarrow>
            forRange st fieldFn r x y args = Inr st)"
proof -
  note f = forRange_fold [OF rows, of fieldFn r x y args]
  have outside: "forRange st fieldFn r x y args = Inr st"
    if "x + r < 0 \<or> int (length row0) \<le> x - r \<or>
        y + r < 0 \<or> int (length (field st)) \<le> y - r"
    using f squareCells_outside [OF that] by simp
  show ?thesis
    using f distinct_squareCells set_squareCells rowMajor_squareCells outside
    by blast
qed

theorem forRange_spec_witness:
  "field traceState = replicate 5 None # replicate 4 (replicate 5 None) \<and>
   forRange traceState visit 1 2 2 () =
     Inr (traceState\<lparr>state.more :=
       [(1, 1), (2, 1), (3, 1), (1, 2), (2, 2), (3, 2), (1, 3), (2, 3), (3, 3)]\<rparr>) \<and>
   length (squareCells 5 5 1 2 2) = 9 \<and>
   forRange traceState visit 1 0 0 () =
     Inr (traceState\<lparr>state.more := [(0, 0), (1, 0), (0, 1), (1, 1)]\<rparr>) \<and>
   length (squareCells 5 5 1 0 0) = 4 \<and>
   forRange traceState visit 1 7 7 () = Inr traceState \<and>
   length (squareCells 5 5 1 7 7) = 0"
proof -
  note spec = forRange_spec [OF traceField, where fieldFn = visit and args = "()" and r = 1,
      THEN conjunct1]
  have a: "forRange traceState visit 1 2 2 () =
     Inr (traceState\<lparr>state.more :=
       [(1, 1), (2, 1), (3, 1), (1, 2), (2, 2), (3, 2), (1, 3), (2, 3), (3, 3)]\<rparr>)"
    using spec [of 2 2] by (simp add: cells22 visit_def traceState_def)
  have b: "forRange traceState visit 1 0 0 () =
     Inr (traceState\<lparr>state.more := [(0, 0), (1, 0), (0, 1), (1, 1)]\<rparr>)"
    using spec [of 0 0] by (simp add: cells00 visit_def traceState_def)
  have c: "forRange traceState visit 1 7 7 () = Inr traceState"
    using forRange_spec [OF traceField, where fieldFn = visit and args = "()" and r = 1
        and x = 7 and y = 7, THEN conjunct2, THEN conjunct2, THEN conjunct2, THEN conjunct2]
    by (simp add: traceState_def)
  show ?thesis
    using traceField a b c by (simp add: cells22 cells00 cells77)
qed

text \<open>
  The claim as stated fails in its last part: a center outside the bounds can still have
  cells of its square within them. On the 5 by 5 field the center \<open>(5, 5)\<close> is outside, and
  with radius 1 the cell \<open>(4, 4)\<close> is visited, so the state returned is not the state
  passed in.
\<close>

theorem forRange_outside_center_counterexample:
  "length (field traceState) = 5 \<and> length (hd (field traceState)) = 5 \<and>
   forRange traceState visit 1 5 5 () = Inr (traceState\<lparr>state.more := [(4, 4)]\<rparr>) \<and>
   forRange traceState visit 1 5 5 () \<noteq> Inr traceState"
proof -
  have "forRange traceState visit 1 5 5 () = Inr (traceState\<lparr>state.more := [(4, 4)]\<rparr>)"
    using forRange_fold [OF traceField, of visit 1 5 5 "()"]
    by (simp add: cells55 visit_def traceState_def)
  moreover have "traceState\<lparr>state.more := [(4, 4)]\<rparr> \<noteq> traceState"
    by (simp add: traceState_def)
  ultimately show ?thesis
    by (simp add: traceState_def)
qed

section \<open>Memoization\<close>

lemma proto_key: "''__proto__'' \<in> set Object_prototype_keys"
  by (simp add: Object_prototype_keys_def)

lemma map_of_MemoizeCache_set:
  "key \<noteq> ''__proto__'' \<Longrightarrow>
   map_of (MemoizeCache_set threshold cache key v) =
     (if length (map fst cache) > threshold then Map.empty else map_of cache)(key \<mapsto> v)"
  by (simp add: MemoizeCache_set_def Let_def update_conv')

lemma MemoizeCache_get_own:
  "key \<notin> set Object_prototype_keys \<Longrightarrow>
   MemoizeCache_get cache key = (case map_of cache key of Some v \<Rightarrow> toCached v | None \<Rightarrow> Undefined)"
  by (simp add: MemoizeCache_get_def split: option.split)

lemma MemoizeCache_get_has:
  "MemoizeCache_get cache key \<noteq> Undefined \<Longrightarrow> MemoizeCache_has cache key"
  by (auto simp add: MemoizeCache_get_def MemoizeCache_has_def
        split: option.splits if_splits dest: map_of_SomeD intro: rev_image_eqI)

lemma memoized_miss:
  "MemoizeCache_get cache (serializer args) = Undefined \<Longrightarrow>
   memoized threshold serializer fn cache args =
     (toCached (fn args), MemoizeCache_set threshold cache (serializer args) (fn args))"
  by (simp add: memoized_def Let_def)

lemma memoized_hit:
  "MemoizeCache_get cache (serializer args) \<noteq> Undefined \<Longrightarrow>
   memoized threshold serializer fn cache args =
     (MemoizeCache_get cache (serializer args), cache)"
  by (simp add: memoized_def Let_def split: cached.split)

lemma memoized_invariant:
  assumes ok: "\<forall>k v. map_of cache k = Some v \<longrightarrow> (\<exists>a. serializer a = k \<and> v = fn a)"
    and own: "\<forall>a. serializer a \<notin> set Object_prototype_keys"
  shows "\<forall>k v. map_of (snd (memoized threshold serializer fn cache args)) k = Some v \<longrightarrow>
           (\<exists>a. serializer a = k \<and> v = fn a)"
proof (cases "MemoizeCache_get cache (serializer args) = Undefined")
  case True
  have "serializer args \<noteq> ''__proto__''"
    using own proto_key by metis
  moreover have "memoized threshold serializer fn cache args =
      (toCached (fn args), MemoizeCache_set threshold cache (serializer args) (fn args))"
    using True by (rule memoized_miss)
  ultimately show ?thesis
    using ok by (auto simp add: map_of_MemoizeCache_set split: if_splits)
next
  case False
  then show ?thesis
    using ok by (simp add: memoized_hit)
qed

lemma cacheAfter_snoc:
  "cacheAfter threshold serializer fn (calls @ [args]) =
     snd (memoized threshold serializer fn (cacheAfter threshold serializer fn calls) args)"
  by (simp add: cacheAfter_def)

lemma cacheAfter_invariant:
  assumes own: "\<forall>a. serializer a \<notin> set Object_prototype_keys"
  shows "\<forall>k v. map_of (cacheAfter threshold serializer fn calls) k = Some v \<longrightarrow>
     (\<exists>a. serializer a = k \<and> v = fn a)"
proof (induction calls rule: rev_induct)
  case Nil
  show ?case by (simp add: cacheAfter_def)
next
  case (snoc args calls)
  show ?case
    unfolding cacheAfter_snoc by (rule memoized_invariant [OF snoc own])
qed

lemma memoized_distinct:
  assumes "distinct (map fst cache)"
  shows "distinct (map fst (snd (memoized threshold serializer fn cache args)))"
  using assms
  by (simp add: memoized_def Let_def MemoizeCache_set_def distinct_update split: cached.split)

lemma cacheAfter_distinct: "distinct (map fst (cacheAfter threshold serializer fn calls))"
proof (induction calls rule: rev_induct)
  case Nil
  show ?case by (simp add: cacheAfter_def)
next
  case (snoc args calls)
  show ?case
    unfolding cacheAfter_snoc by (rule memoized_distinct) (rule snoc)
qed

lemma memoized_result:
  assumes ok: "\<forall>k v. map_of cache k = Some v \<longrightarrow> (\<exists>a. serializer a = k \<and> v = fn a)"
    and inj: "inj serializer"
    and own: "\<forall>a. serializer a \<notin> set Object_prototype_keys"
  shows "fst (memoized threshold serializer fn cache args) = toCached (fn args)"
proof (cases "map_of cache (serializer args)")
  case None
  then have "MemoizeCache_get cache (serializer args) = Undefined"
    using own by (simp add: MemoizeCache_get_own)
  then show ?thesis
    by (simp add: memoized_miss)
next
  case (Some v)
  then obtain a where a: "serializer a = serializer args" "v = fn a"
    using ok by blast
  then have "a = args"
    using inj by (simp add: inj_eq)
  then have v: "v = fn args"
    using a by simp
  have get: "MemoizeCache_get cache (serializer args) = toCached (fn args)"
    using Some v own by (simp add: MemoizeCache_get_own)
  show ?thesis
  proof (cases "MemoizeCache_get cache (serializer args) = Undefined")
    case True
    then show ?thesis by (simp add: memoized_miss)
  next
    case False
    then show ?thesis by (simp add: memoized_hit get)
  qed
qed

lemma bracketed_own: "bracketed s \<notin> set Object_prototype_keys"
  by (simp add: bracketed_def Object_prototype_keys_def)

lemma inj_bracketed: "inj bracketed"
  by (rule injI) (simp add: bracketed_def)

text \<open>
  Claim C8, as amended. When the serializer gives different keys to different argument
  lists, and no key is the name of a member of \<open>Object.prototype\<close>, wrapping a pure function
  with \<open>memoize\<close> does not change what it returns: for every argument list, and every cache
  that calls of the memoized function can produce from the empty cache (its keys are
  distinct), the memoized function returns what the wrapped function returns, also
  immediately after an eviction. The eviction happens in \<open>set\<close> when the cache holds more
  than \<open>MEMOIZE_CACHE_CLEAR_THRESHOLD\<close> keys: the whole cache is dropped, and only the entry
  being stored is in it afterwards; with at most that many keys nothing is dropped.
\<close>

theorem memoize_spec:
  fixes serializer :: "'a \<Rightarrow> string" and fn :: "'a \<Rightarrow> 'v option"
  assumes inj: "inj serializer"
    and own: "\<forall>a. serializer a \<notin> set Object_prototype_keys"
  shows "fst (memoized threshold serializer fn (cacheAfter threshold serializer fn calls) args) =
           toCached (fn args) \<and>
         distinct (map fst (cacheAfter threshold serializer fn calls)) \<and>
         (\<forall>(cache :: 'v memoizeCache) key v.
            key \<noteq> ''__proto__'' \<and> length (map fst cache) > threshold \<longrightarrow>
            MemoizeCache_set threshold cache key v = [(key, v)]) \<and>
         (\<forall>(cache :: 'v memoizeCache) key v.
            key \<noteq> ''__proto__'' \<and> length (map fst cache) \<le> threshold \<longrightarrow>
            MemoizeCache_set threshold cache key v = AList.update key v cache) \<and>
         (length (map fst (cacheAfter threshold serializer fn calls)) > threshold \<and>
          MemoizeCache_get (cacheAfter threshold serializer fn calls) (serializer args) =
            Undefined \<longrightarrow>
            cacheAfter threshold serializer fn (calls @ [args]) = [(serializer args, fn args)] \<and>
            (\<forall>args'. fst (memoized threshold serializer fn
                           (cacheAfter threshold serializer fn (calls @ [args])) args') =
                      toCached (fn args')))"
proof -
  have result: "fst (memoized threshold serializer fn
       (cacheAfter threshold serializer fn cs) as) = toCached (fn as)" for cs as
    by (rule memoized_result [OF cacheAfter_invariant [OF own] inj own])
  have key: "serializer args \<noteq> ''__proto__''"
    using own proto_key by metis
  have evict: "cacheAfter threshold serializer fn (calls @ [args]) =
      [(serializer args, fn args)]"
    if "length (map fst (cacheAfter threshold serializer fn calls)) > threshold \<and>
        MemoizeCache_get (cacheAfter threshold serializer fn calls) (serializer args) =
          Undefined"
    using that key by (simp add: cacheAfter_snoc memoized_miss MemoizeCache_set_def)
  have full: "\<forall>(cache :: 'v memoizeCache) key v.
      key \<noteq> ''__proto__'' \<and> length (map fst cache) > threshold \<longrightarrow>
      MemoizeCache_set threshold cache key v = [(key, v)]"
    by (simp add: MemoizeCache_set_def)
  have room: "\<forall>(cache :: 'v memoizeCache) key v.
      key \<noteq> ''__proto__'' \<and> length (map fst cache) \<le> threshold \<longrightarrow>
      MemoizeCache_set threshold cache key v = AList.update key v cache"
    by (simp add: MemoizeCache_set_def)
  show ?thesis
    using result cacheAfter_distinct [of threshold serializer fn calls] evict full room
    by blast
qed

theorem memoize_spec_witness:
  "inj bracketed \<and>
   (\<forall>a. bracketed a \<notin> set Object_prototype_keys) \<and>
   cacheAfter 1 bracketed stringLength [''a'', ''bb''] =
     [(''[a]'', Some 1), (''[bb]'', Some 2)] \<and>
   length (map fst (cacheAfter 1 bracketed stringLength [''a'', ''bb''])) > 1 \<and>
   MemoizeCache_get (cacheAfter 1 bracketed stringLength [''a'', ''bb'']) (bracketed ''ccc'') =
     Undefined \<and>
   cacheAfter 1 bracketed stringLength ([''a'', ''bb''] @ [''ccc'']) = [(''[ccc]'', Some 3)] \<and>
   fst (memoized 1 bracketed stringLength
          (cacheAfter 1 bracketed stringLength ([''a'', ''bb''] @ [''ccc''])) ''bb'') = Value 2 \<and>
   fst (memoized 1 bracketed stringLength
          (cacheAfter 1 bracketed stringLength ([''a'', ''bb''] @ [''ccc''])) ''ccc'') = Value 3 \<and>
   fst (memoized 1 bracketed stringLength
          (cacheAfter 1 bracketed stringLength [''a'', ''bb'']) ''constructor'') = Value 11"
proof -
  have own: "\<forall>a. bracketed a \<notin> set Object_prototype_keys"
    by (simp add: bracketed_own)
  have before: "cacheAfter 1 bracketed stringLength [''a'', ''bb''] =
     [(''[a]'', Some 1), (''[bb]'', Some 2)]"
    by (simp add: cacheAfter_def memoized_def MemoizeCache_get_def MemoizeCache_set_def
          stringLength_def bracketed_def Object_prototype_keys_def toCached_def Let_def)
  have full: "length (map fst (cacheAfter 1 bracketed stringLength [''a'', ''bb''])) > 1"
    unfolding before by simp
  have miss: "MemoizeCache_get (cacheAfter 1 bracketed stringLength [''a'', ''bb''])
      (bracketed ''ccc'') = Undefined"
    unfolding before
    by (simp add: MemoizeCache_get_def bracketed_def Object_prototype_keys_def)
  note spec = memoize_spec [OF inj_bracketed own, of 1 stringLength "[''a'', ''bb'']"]
  note after = spec [of "''ccc''", THEN conjunct2, THEN conjunct2, THEN conjunct2,
      THEN conjunct2, rule_format, OF conjI, OF full miss]
  have evicted: "cacheAfter 1 bracketed stringLength ([''a'', ''bb''] @ [''ccc'']) =
      [(''[ccc]'', Some 3)]"
    using after [THEN conjunct1] by (simp add: stringLength_def bracketed_def)
  have again2: "fst (memoized 1 bracketed stringLength
          (cacheAfter 1 bracketed stringLength ([''a'', ''bb''] @ [''ccc''])) ''bb'') = Value 2"
    using after [THEN conjunct2, rule_format, of "''bb''"]
    by (simp add: stringLength_def toCached_def)
  have again3: "fst (memoized 1 bracketed stringLength
          (cacheAfter 1 bracketed stringLength ([''a'', ''bb''] @ [''ccc''])) ''ccc'') = Value 3"
    using after [THEN conjunct2, rule_format, of "''ccc''"]
    by (simp add: stringLength_def toCached_def)
  have named: "fst (memoized 1 bracketed stringLength
          (cacheAfter 1 bracketed stringLength [''a'', ''bb'']) ''constructor'') = Value 11"
    using spec [of "''constructor''", THEN conjunct1]
    by (simp add: stringLength_def toCached_def)
  show ?thesis
    using inj_bracketed own before full miss evicted again2 again3 named by blast
qed

text \<open>
  The claim as stated fails in two places. First, for argument lists whose keys collide:
  the repository's own \<open>memoizationSerializer\<close>, the serializer of \<open>findInField\<close>, replaces
  a function by its source text, so two closures with the same text and different captured
  variables get the same key; after \<open>findInField(field, hasItemId('carrot'))\<close>, the call
  \<open>findInField(field, hasItemId('pumpkin'))\<close> returns the cached row with the carrot, where
  the wrapped function returns \<open>null\<close>. Second, for a key that names a member of
  \<open>Object.prototype\<close>, also with a serializer that never collides: the cache is a plain
  object, so on the empty cache \<open>get('constructor')\<close> gives the inherited \<open>Object\<close>
  function, and the memoized function returns it without calling the wrapped function,
  which would return 11 for the length of that string.
\<close>

theorem memoize_collision_counterexample:
  "fst (memoized 100 (memoizationSerializer stringifyArgs) findInField_fn
          (cacheAfter 100 (memoizationSerializer stringifyArgs) findInField_fn [findCarrot])
          findPumpkin) =
     Value (Some [None, Some (carrotCrop 2 1)]) \<and>
   toCached (findInField_fn findPumpkin) = Value None \<and>
   fst (memoized 100 (memoizationSerializer stringifyArgs) findInField_fn
          (cacheAfter 100 (memoizationSerializer stringifyArgs) findInField_fn [findCarrot])
          findPumpkin) \<noteq>
     toCached (findInField_fn findPumpkin) \<and>
   inj (id :: string \<Rightarrow> string) \<and>
   fst (memoized 100 id stringLength (cacheAfter 100 id stringLength []) ''constructor'') =
     Inherited ''constructor'' \<and>
   toCached (stringLength ''constructor'') = Value 11 \<and>
   fst (memoized 100 id stringLength (cacheAfter 100 id stringLength []) ''constructor'') \<noteq>
     toCached (stringLength ''constructor'')"
proof -
  have key: "memoizationSerializer stringifyArgs findPumpkin =
      memoizationSerializer stringifyArgs findCarrot"
    by (simp add: memoizationSerializer_def findCarrot_def findPumpkin_def)
  have carrot: "findInField_fn findCarrot = Some (Some [None, Some (carrotCrop 2 1)])"
    by (simp add: findInField_fn_def findCarrot_def carrotField_def hasItemId_def
          carrotCrop_def)
  have own: "memoizationSerializer stringifyArgs findCarrot \<notin> set Object_prototype_keys"
    by (simp add: memoizationSerializer_def stringifyArgs_def Object_prototype_keys_def)
  have cache: "cacheAfter 100 (memoizationSerializer stringifyArgs) findInField_fn [findCarrot] =
      [(memoizationSerializer stringifyArgs findCarrot, findInField_fn findCarrot)]"
    using own
    by (simp add: cacheAfter_def memoized_def MemoizeCache_get_def MemoizeCache_set_def
          Let_def Object_prototype_keys_def)
  have cached: "fst (memoized 100 (memoizationSerializer stringifyArgs) findInField_fn
          (cacheAfter 100 (memoizationSerializer stringifyArgs) findInField_fn [findCarrot])
          findPumpkin) =
     Value (Some [None, Some (carrotCrop 2 1)])"
    unfolding cache
    by (simp add: memoized_def MemoizeCache_get_def key carrot toCached_def Let_def)
  have plain: "toCached (findInField_fn findPumpkin) = Value None"
    by (simp add: findInField_fn_def findPumpkin_def carrotField_def hasItemId_def
          carrotCrop_def toCached_def)
  have inherited: "fst (memoized 100 id stringLength (cacheAfter 100 id stringLength [])
      ''constructor'') = Inherited ''constructor''"
    by (simp add: cacheAfter_def memoized_def MemoizeCache_get_def Object_prototype_keys_def
          Let_def)
  have length: "toCached (stringLength ''constructor'') = Value 11"
    by (simp add: stringLength_def toCached_def)
  show ?thesis
    using cached plain inherited length by simp
qed

end
